theory Spec2Isabelle
  imports Main "HOL-Library.Char_ord" "HOL-Library.List_Lexorder"
begin

section \<open>The relay worker of src/index.js\<close>

text \<open>
  The worker is one JavaScript module: the exported \<open>fetch\<close> handler and the helpers
  \<open>ensureProtocol\<close>, \<open>handleRedirect\<close>, \<open>handleHtmlContent\<close>, \<open>replaceRelativePaths\<close>,
  \<open>jsonResponse\<close>, \<open>filterHeaders\<close>, \<open>setNoCacheHeaders\<close>, \<open>setCorsHeaders\<close> and
  \<open>getRootHtml\<close>. Each helper is embedded below under its own name. What the helpers call
  in the JavaScript runtime (strings, \<open>encodeURIComponent\<close>, \<open>decodeURIComponent\<close>,
  \<open>JSON.stringify\<close>, \<open>Headers\<close>, \<open>Response\<close>, regular-expression replacement) is modelled
  after ECMAScript and the Fetch standard; what depends on the network or on the URL
  parser (\<open>new URL\<close>, \<open>new Request\<close>, the global \<open>fetch\<close>, \<open>Response.text\<close>) is a
  field of a \<open>platform\<close> record, so that theorems hold for every such platform.
\<close>

subsection \<open>Strings\<close>

text \<open>
  A JavaScript string is represented by its UTF-8 bytes, one \<open>char\<close> per byte. All
  patterns the worker searches for are ASCII, and an ASCII byte never occurs inside a
  multi-byte sequence, so \<open>startsWith\<close>, \<open>includes\<close>, \<open>replace\<close> and the regular
  expression see the same matches as on UTF-16 code units. Strings with unpaired
  surrogates have no representation and are outside the model.
\<close>

definition code :: "char \<Rightarrow> nat" where
  "code c = of_char c"

definition startsWith :: "string \<Rightarrow> string \<Rightarrow> bool" where
  "startsWith s p = (take (length p) s = p)"

fun String_includes :: "string \<Rightarrow> string \<Rightarrow> bool" where
  "String_includes [] p = (p = [])"
| "String_includes (c # cs) p = (startsWith (c # cs) p \<or> String_includes cs p)"

text \<open>
  \<open>String.prototype.replace\<close> with a string pattern: the first occurrence only. The
  replacement is taken literally here; the worker's only call passes the empty string.
\<close>

fun String_replace :: "string \<Rightarrow> string \<Rightarrow> string \<Rightarrow> string" where
  "String_replace [] p r = (if p = [] then r else [])"
| "String_replace (c # cs) p r =
     (if startsWith (c # cs) p then r @ drop (length p) (c # cs)
      else c # String_replace cs p r)"

text \<open>Byte-lowercasing, as the Fetch standard applies to header names.\<close>

definition toLowerASCII :: "char \<Rightarrow> char" where
  "toLowerASCII c = (if 65 \<le> code c \<and> code c \<le> 90 then char_of (code c + 32) else c)"

definition lowercase :: "string \<Rightarrow> string" where
  "lowercase s = map toLowerASCII s"

fun join :: "string \<Rightarrow> string list \<Rightarrow> string" where
  "join sep [] = []"
| "join sep [x] = x"
| "join sep (x # y # ys) = x @ sep @ join sep (y # ys)"

subsection \<open>Errors\<close>

text \<open>A thrown \<open>Error\<close> object: its class and its \<open>message\<close>.\<close>

datatype js_error = TypeError string | RangeError string | URIError string

fun message :: "js_error \<Rightarrow> string" where
  "message (TypeError m) = m"
| "message (RangeError m) = m"
| "message (URIError m) = m"

text \<open>Sequencing of fallible steps: the first throw ends the computation.\<close>

definition andThen :: "js_error + 'a \<Rightarrow> ('a \<Rightarrow> js_error + 'b) \<Rightarrow> js_error + 'b" where
  "andThen x f = (case x of Inl e \<Rightarrow> Inl e | Inr v \<Rightarrow> f v)"

subsection \<open>encodeURIComponent and decodeURIComponent\<close>

text \<open>
  ECMAScript \<open>Encode\<close> with the unreserved set of \<open>encodeURIComponent\<close>: letters, digits
  and \<open>- _ . ! ~ * ' ( )\<close> stay, every other byte of the UTF-8 form becomes \<open>%XX\<close> with
  upper-case hexadecimal digits.
\<close>

definition uriUnreserved :: "char \<Rightarrow> bool" where
  "uriUnreserved c =
     (c \<in> set ''ABCDEFGHIJKLMNOPQRSTUVWXYZabcdefghijklmnopqrstuvwxyz0123456789-_.!~*()''
      \<or> c = CHR 0x27)"

definition hexDigit :: "nat \<Rightarrow> char" where
  "hexDigit n = ''0123456789ABCDEF'' ! n"

definition encodeByte :: "char \<Rightarrow> string" where
  "encodeByte c =
     (if uriUnreserved c then [c]
      else [CHR ''%'', hexDigit (code c div 16), hexDigit (code c mod 16)])"

definition encodeURIComponent :: "string \<Rightarrow> string" where
  "encodeURIComponent s = concat (map encodeByte s)"

definition hexValue :: "char \<Rightarrow> nat option" where
  "hexValue c =
     (let n = code c in
      if 48 \<le> n \<and> n \<le> 57 then Some (n - 48)
      else if 65 \<le> n \<and> n \<le> 70 then Some (n - 55)
      else if 97 \<le> n \<and> n \<le> 102 then Some (n - 87)
      else None)"

definition ParseHexOctet :: "char \<Rightarrow> char \<Rightarrow> nat option" where
  "ParseHexOctet a b =
     (case hexValue a of None \<Rightarrow> None
      | Some x \<Rightarrow> (case hexValue b of None \<Rightarrow> None | Some y \<Rightarrow> Some (16 * x + y)))"

text \<open>The number of leading 1 bits of an octet with its top bit set (5 stands for more than 4).\<close>

definition leadingOnes :: "nat \<Rightarrow> nat" where
  "leadingOnes B =
     (if B < 192 then 1 else if B < 224 then 2 else if B < 240 then 3
      else if B < 248 then 4 else 5)"

text \<open>The \<open>j\<close> escapes \<open>%XX\<close> that must follow the first octet of a multi-byte sequence.\<close>

fun readContinuation :: "nat \<Rightarrow> string \<Rightarrow> (nat list \<times> string) option" where
  "readContinuation 0 s = Some ([], s)"
| "readContinuation (Suc j) s =
     (case s of
        p # a # b # rest \<Rightarrow>
          (if p \<noteq> CHR ''%'' then None
           else case ParseHexOctet a b of
                  None \<Rightarrow> None
                | Some B \<Rightarrow>
                    (case readContinuation j rest of
                       None \<Rightarrow> None
                     | Some (octets, rest') \<Rightarrow> Some (B # octets, rest')))
      | _ \<Rightarrow> None)"

definition continuationByte :: "nat \<Rightarrow> bool" where
  "continuationByte b = (128 \<le> b \<and> b \<le> 191)"

text \<open>Well-formed UTF-8 sequences of two to four octets (Unicode, table 3-7).\<close>

fun validUTF8 :: "nat list \<Rightarrow> bool" where
  "validUTF8 [a, b] = (194 \<le> a \<and> a \<le> 223 \<and> continuationByte b)"
| "validUTF8 [a, b, c] =
     ((a = 224 \<and> 160 \<le> b \<and> b \<le> 191
       \<or> 225 \<le> a \<and> a \<le> 236 \<and> continuationByte b
       \<or> a = 237 \<and> 128 \<le> b \<and> b \<le> 159
       \<or> 238 \<le> a \<and> a \<le> 239 \<and> continuationByte b)
      \<and> continuationByte c)"
| "validUTF8 [a, b, c, d] =
     ((a = 240 \<and> 144 \<le> b \<and> b \<le> 191
       \<or> 241 \<le> a \<and> a \<le> 243 \<and> continuationByte b
       \<or> a = 244 \<and> 128 \<le> b \<and> b \<le> 143)
      \<and> continuationByte c \<and> continuationByte d)"
| "validUTF8 _ = False"

definition uriMalformed :: js_error where
  "uriMalformed = URIError ''URI malformed''"

lemma readContinuation_length:
  "readContinuation j s = Some (octets, rest) \<Longrightarrow> length rest \<le> length s"
proof (induction j arbitrary: s octets)
  case 0
  then show ?case by simp
next
  case (Suc j)
  then show ?case
    by (fastforce split: list.splits if_splits option.splits)
qed

text \<open>
  ECMAScript \<open>Decode\<close> with an empty set of preserved escapes. A \<open>%\<close> needs two
  hexadecimal digits; an octet below 128 is the character itself; a higher octet opens
  a UTF-8 sequence whose other octets must follow as escapes, and the sequence must be
  well formed. Every failure throws the same \<open>URIError\<close>.
\<close>

function Decode :: "string \<Rightarrow> js_error + string" where
  "Decode [] = Inr []"
| "Decode (c # cs) =
     (if c \<noteq> CHR ''%'' then map_sum id ((#) c) (Decode cs)
      else case cs of
        a # b # rest \<Rightarrow>
          (case ParseHexOctet a b of
             None \<Rightarrow> Inl uriMalformed
           | Some B \<Rightarrow>
               (if B < 128 then map_sum id ((#) (char_of B)) (Decode rest)
                else if leadingOnes B = 1 \<or> 4 < leadingOnes B then Inl uriMalformed
                else (case readContinuation (leadingOnes B - 1) rest of
                        None \<Rightarrow> Inl uriMalformed
                      | Some (octets, rest') \<Rightarrow>
                          (if validUTF8 (B # octets)
                           then map_sum id ((@) (map char_of (B # octets))) (Decode rest')
                           else Inl uriMalformed))))
      | _ \<Rightarrow> Inl uriMalformed)"
  by pat_completeness auto
termination
  by (relation "measure length") (auto dest: readContinuation_length)

definition decodeURIComponent :: "string \<Rightarrow> js_error + string" where
  "decodeURIComponent s = Decode s"

subsection \<open>ensureProtocol\<close>

definition ensureProtocol :: "string \<Rightarrow> string \<Rightarrow> string" where
  "ensureProtocol url defaultProtocol =
     (if startsWith url ''http://'' \<or> startsWith url ''https://'' then url
      else defaultProtocol @ ''//'' @ url)"

subsection \<open>Headers\<close>

text \<open>
  A \<open>Headers\<close> object is its header list: names and values in the order they were
  appended, names in the case they were given (Fetch standard, header lists). Names
  are compared byte-case-insensitively. The runtime of this worker is a server, so no
  header name is forbidden or filtered by a guard.
\<close>

type_synonym Headers = "(string \<times> string) list"

definition httpWhitespace :: "char \<Rightarrow> bool" where
  "httpWhitespace c = (c \<in> set [CHR 0x09, CHR 0x0A, CHR 0x0D, CHR 0x20])"

text \<open>Normalising a value strips leading and trailing HTTP whitespace.\<close>

definition normalizeValue :: "string \<Rightarrow> string" where
  "normalizeValue v = rev (dropWhile httpWhitespace (rev (dropWhile httpWhitespace v)))"

definition tchar :: "char \<Rightarrow> bool" where
  "tchar c =
     (c \<in> set ''ABCDEFGHIJKLMNOPQRSTUVWXYZabcdefghijklmnopqrstuvwxyz0123456789!#$%&*+-.^_|~''
      \<or> c = CHR 0x27 \<or> c = CHR 0x60)"

definition validName :: "string \<Rightarrow> bool" where
  "validName n = (n \<noteq> [] \<and> list_all tchar n)"

definition validValue :: "string \<Rightarrow> bool" where
  "validValue v = list_all (\<lambda>c. c \<noteq> CHR 0x00 \<and> c \<noteq> CHR 0x0A \<and> c \<noteq> CHR 0x0D) v"

definition sameName :: "string \<Rightarrow> string \<times> string \<Rightarrow> bool" where
  "sameName name h = (lowercase (fst h) = lowercase name)"

definition headerValues :: "Headers \<Rightarrow> string \<Rightarrow> string list" where
  "headerValues h name = map snd (filter (sameName name) h)"

text \<open>\<open>headers.get(name)\<close>: the values under the name, joined by comma and space; \<open>null\<close> if none.\<close>

definition Headers_get :: "Headers \<Rightarrow> string \<Rightarrow> string option" where
  "Headers_get h name =
     (if headerValues h name = [] then None else Some (join '', '' (headerValues h name)))"

text \<open>
  Appending validates the name and the normalised value, and reuses the spelling of
  the first header already stored under the same name.
\<close>

definition Headers_append :: "Headers \<Rightarrow> string \<Rightarrow> string \<Rightarrow> js_error + Headers" where
  "Headers_append h name v =
     (if validName name \<and> validValue (normalizeValue v)
      then Inr (h @ [(case find (sameName name) h of None \<Rightarrow> name | Some x \<Rightarrow> fst x,
                      normalizeValue v)])
      else Inl (TypeError ''Invalid header''))"

fun setFirst :: "string \<Rightarrow> string \<Rightarrow> Headers \<Rightarrow> Headers" where
  "setFirst name v [] = []"
| "setFirst name v (x # h) =
     (if sameName name x then (fst x, v) # filter (\<lambda>y. \<not> sameName name y) h
      else x # setFirst name v h)"

text \<open>
  \<open>headers.set(name, value)\<close>: the first header of that name takes the value and the
  others of that name are removed; without one, the header is appended.
\<close>

definition Headers_set :: "Headers \<Rightarrow> string \<Rightarrow> string \<Rightarrow> js_error + Headers" where
  "Headers_set h name v =
     (if validName name \<and> validValue (normalizeValue v)
      then Inr (case find (sameName name) h of
                  None \<Rightarrow> h @ [(name, normalizeValue v)]
                | Some x \<Rightarrow> setFirst name (normalizeValue v) h)
      else Inl (TypeError ''Invalid header''))"

text \<open>
  Iterating a \<open>Headers\<close> object (\<open>[...headers]\<close>, and the copy made when a \<open>Headers\<close>
  object initialises another) yields the "sort and combine" of the list: the
  lower-cased names without duplicates in ascending byte order, each with its values
  joined by comma and space, except that \<open>set-cookie\<close> yields one entry per value.
\<close>

definition Headers_entries :: "Headers \<Rightarrow> (string \<times> string) list" where
  "Headers_entries h =
     concat (map (\<lambda>n. if n = ''set-cookie'' then map (Pair n) (headerValues h n)
                       else [(n, join '', '' (headerValues h n))])
                 (sort (remdups (map (\<lambda>x. lowercase (fst x)) h))))"

fun Headers_fill :: "Headers \<Rightarrow> (string \<times> string) list \<Rightarrow> js_error + Headers" where
  "Headers_fill h [] = Inr h"
| "Headers_fill h (x # xs) = andThen (Headers_append h (fst x) (snd x)) (\<lambda>h'. Headers_fill h' xs)"

text \<open>
  \<open>new Headers(init)\<close> and the \<open>headers\<close> member of a \<open>Response\<close> initialiser: a
  \<open>Headers\<close> object is read through its iterator, an array of pairs or an object literal
  through its entries in order.
\<close>

datatype HeadersInit = FromHeaders Headers | FromPairs "(string \<times> string) list"

fun Headers_new :: "HeadersInit \<Rightarrow> js_error + Headers" where
  "Headers_new (FromHeaders h) = Headers_fill [] (Headers_entries h)"
| "Headers_new (FromPairs xs) = Headers_fill [] xs"

text \<open>
  Object spread \<open>{...x}\<close> copies the own enumerable properties of \<open>x\<close>. A \<open>Headers\<close>
  object keeps its header list in an internal slot and its methods on the prototype:
  it has no own enumerable property, whatever headers it holds.
\<close>

definition ownEnumerableProperties :: "Headers \<Rightarrow> (string \<times> string) list" where
  "ownEnumerableProperties h = []"

text \<open>A property \<open>key: value\<close> written after a spread in an object literal.\<close>

fun setProperty :: "(string \<times> string) list \<Rightarrow> string \<Rightarrow> string \<Rightarrow> (string \<times> string) list" where
  "setProperty [] k v = [(k, v)]"
| "setProperty (x # xs) k v = (if fst x = k then (k, v) # xs else x # setProperty xs k v)"

subsection \<open>URL, Request, Response and the platform\<close>

text \<open>The members of a parsed \<open>URL\<close> that the worker reads; \<open>toString()\<close> is \<open>href\<close>.\<close>

record URL =
  href :: string
  protocol :: string
  host :: string
  pathname :: string
  search :: string
  origin :: string

record Request =
  req_url :: string
  req_method :: string
  req_headers :: Headers
  req_body :: "string option"

record RequestInit =
  init_headers :: Headers
  init_method :: string
  init_body :: "string option"
  init_redirect :: string

text \<open>A body is the bytes it delivers; \<open>None\<close> is the \<open>null\<close> body.\<close>

record Response =
  status :: nat
  statusText :: string
  headers :: Headers
  body :: "string option"

text \<open>
  What the runtime provides and the repository does not define. \<open>URL_new\<close> is
  \<open>new URL(s)\<close> with no base, \<open>Request_new\<close> is \<open>new Request(s, init)\<close>, \<open>global_fetch\<close> is
  the awaited global \<open>fetch(request)\<close>, \<open>Response_text\<close> is the awaited
  \<open>response.text()\<close>. \<open>rootHtml\<close> is the landing page that \<open>getRootHtml\<close> returns, a fixed
  text of 85 lines that no property below depends on.
\<close>

record platform =
  URL_new :: "string \<Rightarrow> js_error + URL"
  Request_new :: "string \<Rightarrow> RequestInit \<Rightarrow> js_error + Request"
  global_fetch :: "Request \<Rightarrow> js_error + Response"
  Response_text :: "Response \<Rightarrow> js_error + string"
  rootHtml :: string

definition getRootHtml :: "platform \<Rightarrow> string" where
  "getRootHtml P = rootHtml P"

text \<open>
  The first argument of \<open>new Response\<close>: the body of another response (a stream or
  \<open>null\<close>), or a string.
\<close>

datatype BodyInit = BodyOf "string option" | BodyText string

fun bodyBytes :: "BodyInit \<Rightarrow> string option" where
  "bodyBytes (BodyOf b) = b"
| "bodyBytes (BodyText t) = Some t"

fun isText :: "BodyInit \<Rightarrow> bool" where
  "isText (BodyOf b) = False"
| "isText (BodyText t) = True"

text \<open>
  \<open>new Response(body, {status, statusText, headers})\<close> (Fetch standard, "initialize a
  response"): the status must lie in 200..599; the headers are filled from the
  initialiser; a body that is not \<open>null\<close> is refused for the statuses 101, 204, 205 and
  304; a string body brings the content type \<open>text/plain;charset=UTF-8\<close> unless a
  \<open>Content-Type\<close> is there. The check of \<open>statusText\<close> against the reason-phrase grammar
  is left out: the worker passes the empty default or the text of a response it received.
\<close>

definition Response_new :: "BodyInit \<Rightarrow> nat \<Rightarrow> string \<Rightarrow> HeadersInit \<Rightarrow> js_error + Response" where
  "Response_new b st stText init =
     (if st < 200 \<or> 599 < st then Inl (RangeError ''Invalid status'')
      else andThen (Headers_new init) (\<lambda>h.
        if bodyBytes b = None
        then Inr \<lparr>status = st, statusText = stText, headers = h, body = None\<rparr>
        else if st \<in> set [101, 204, 205, 304]
        then Inl (TypeError ''Response with null body status cannot have body'')
        else andThen (if isText b \<and> Headers_get h ''Content-Type'' = None
                      then Headers_append h ''Content-Type'' ''text/plain;charset=UTF-8''
                      else Inr h)
               (\<lambda>h'. Inr \<lparr>status = st, statusText = stText, headers = h', body = bodyBytes b\<rparr>)))"

subsection \<open>JSON.stringify\<close>

text \<open>
  \<open>QuoteJSONString\<close>: the two-character escapes, a \<open>u\<close> escape with four hexadecimal
  digits for the other control characters, every other byte as it is.
\<close>

definition hexDigitLower :: "nat \<Rightarrow> char" where
  "hexDigitLower n = ''0123456789abcdef'' ! n"

definition quoteJSONChar :: "char \<Rightarrow> string" where
  "quoteJSONChar c =
     (if c = CHR 0x08 then [CHR 0x5C, CHR ''b'']
      else if c = CHR 0x09 then [CHR 0x5C, CHR ''t'']
      else if c = CHR 0x0A then [CHR 0x5C, CHR ''n'']
      else if c = CHR 0x0C then [CHR 0x5C, CHR ''f'']
      else if c = CHR 0x0D then [CHR 0x5C, CHR ''r'']
      else if c = CHR 0x22 then [CHR 0x5C, CHR 0x22]
      else if c = CHR 0x5C then [CHR 0x5C, CHR 0x5C]
      else if code c < 32
      then [CHR 0x5C, CHR ''u'', CHR ''0'', CHR ''0'',
            hexDigitLower (code c div 16), hexDigitLower (code c mod 16)]
      else [c])"

definition QuoteJSONString :: "string \<Rightarrow> string" where
  "QuoteJSONString s = CHR 0x22 # concat (map quoteJSONChar s) @ [CHR 0x22]"

text \<open>\<open>JSON.stringify\<close> of an object whose properties are strings, without indentation.\<close>

definition JSON_stringify :: "(string \<times> string) list \<Rightarrow> string" where
  "JSON_stringify data =
     ''{'' @ join '','' (map (\<lambda>p. QuoteJSONString (fst p) @ '':'' @ QuoteJSONString (snd p)) data)
     @ ''}''"

subsection \<open>The helpers of the worker\<close>

definition jsonResponse :: "(string \<times> string) list \<Rightarrow> nat \<Rightarrow> js_error + Response" where
  "jsonResponse data st =
     Response_new (BodyText (JSON_stringify data)) st []
       (FromPairs [(''Content-Type'', ''application/json; charset=utf-8'')])"

definition filterHeaders :: "Headers \<Rightarrow> (string \<Rightarrow> bool) \<Rightarrow> js_error + Headers" where
  "filterHeaders hs filterFunc =
     Headers_new (FromPairs (filter (\<lambda>x. filterFunc (fst x)) (Headers_entries hs)))"

definition setNoCacheHeaders :: "Headers \<Rightarrow> js_error + Headers" where
  "setNoCacheHeaders hs = Headers_set hs ''Cache-Control'' ''no-store''"

definition setCorsHeaders :: "Headers \<Rightarrow> js_error + Headers" where
  "setCorsHeaders hs =
     andThen (Headers_set hs ''Access-Control-Allow-Origin'' ''*'') (\<lambda>h1.
     andThen (Headers_set h1 ''Access-Control-Allow-Methods'' ''GET, POST, PUT, DELETE'') (\<lambda>h2.
     Headers_set h2 ''Access-Control-Allow-Headers'' ''*''))"

text \<open>
  \<open>new URL(response.headers.get('location'))\<close>: no base is given, and a missing header
  is the value \<open>null\<close>, which the constructor reads as the string \<open>null\<close>.
\<close>

fun nullable :: "string option \<Rightarrow> string" where
  "nullable None = ''null''"
| "nullable (Some s) = s"

definition handleRedirect :: "platform \<Rightarrow> Response \<Rightarrow> string option \<Rightarrow> js_error + Response" where
  "handleRedirect P response b =
     andThen (URL_new P (nullable (Headers_get (headers response) ''location''))) (\<lambda>location.
       let modifiedLocation = ''/'' @ encodeURIComponent (href location) in
       Response_new (BodyOf b) (status response) (statusText response)
         (FromPairs (setProperty (ownEnumerableProperties (headers response))
                       ''Location'' modifiedLocation)))"

subsection \<open>The regular expression of replaceRelativePaths\<close>

text \<open>
  The pattern is \<open>((href|src|action)=["'])/(?!/)\<close>: group 2 is one of three words,
  group 1 is that word, the equals sign and one quote character, then comes a slash
  that no second slash follows (the look-ahead also holds at the end of the text). A
  match at the start of \<open>s\<close> gives group 1, group 2 and the text after the match; the
  matched text is group 1 and the slash.
\<close>

definition quoteClass :: "char \<Rightarrow> bool" where
  "quoteClass c = (c = CHR 0x22 \<or> c = CHR 0x27)"

text \<open>The look-ahead \<open>(?!/)\<close>: the text ends here, or its next character is not a slash.\<close>

definition noSlashNext :: "string \<Rightarrow> bool" where
  "noSlashNext rest = (case rest of [] \<Rightarrow> True | d # _ \<Rightarrow> d \<noteq> CHR ''/'')"

definition matchAlternative :: "string \<Rightarrow> string \<Rightarrow> (string \<times> string \<times> string) option" where
  "matchAlternative a s =
     (if startsWith s a
      then (case drop (length a) s of
              e # q # sl # rest \<Rightarrow>
                (if e = CHR ''='' \<and> quoteClass q \<and> sl = CHR ''/'' \<and> noSlashNext rest
                 then Some (a @ [e, q], a, rest)
                 else None)
            | _ \<Rightarrow> None)
      else None)"

text \<open>The alternatives are tried in the order written; a failed one backtracks to the next.\<close>

fun firstMatch :: "string list \<Rightarrow> string \<Rightarrow> (string \<times> string \<times> string) option" where
  "firstMatch [] s = None"
| "firstMatch (a # as) s =
     (case matchAlternative a s of Some m \<Rightarrow> Some m | None \<Rightarrow> firstMatch as s)"

definition RegExp_match :: "string \<Rightarrow> (string \<times> string \<times> string) option" where
  "RegExp_match s = firstMatch [''href'', ''src'', ''action''] s"

definition isDigit :: "char \<Rightarrow> bool" where
  "isDigit c = (48 \<le> code c \<and> code c \<le> 57)"

definition digitValue :: "char \<Rightarrow> nat" where
  "digitValue c = code c - 48"

text \<open>
  ECMAScript \<open>GetSubstitution\<close>, for a pattern without named groups: in the replacement
  template \<open>$$\<close> is a dollar sign, \<open>$&\<close> the matched text, \<open>$`\<close> the text before the match,
  \<open>$'\<close> the text after it, \<open>$n\<close> and \<open>$nn\<close> the capture of that number when there is one;
  anything else stands for itself.
\<close>

fun GetSubstitution :: "string \<Rightarrow> string \<Rightarrow> string \<Rightarrow> string list \<Rightarrow> string \<Rightarrow> string" where
  "GetSubstitution matched preceding following captures [] = []"
| "GetSubstitution matched preceding following captures [c] = [c]"
| "GetSubstitution matched preceding following captures (c # d # t) =
     (if c \<noteq> CHR ''$'' then c # GetSubstitution matched preceding following captures (d # t)
      else if d = CHR ''$'' then CHR ''$'' # GetSubstitution matched preceding following captures t
      else if d = CHR 0x60 then preceding @ GetSubstitution matched preceding following captures t
      else if d = CHR ''&'' then matched @ GetSubstitution matched preceding following captures t
      else if d = CHR 0x27 then following @ GetSubstitution matched preceding following captures t
      else if isDigit d
      then (case t of
              d2 # t2 \<Rightarrow>
                (if isDigit d2 \<and> 10 * digitValue d + digitValue d2 \<le> length captures
                 then (if 1 \<le> 10 * digitValue d + digitValue d2
                       then captures ! (10 * digitValue d + digitValue d2 - 1)
                            @ GetSubstitution matched preceding following captures t2
                       else CHR ''$'' # d # d2 # GetSubstitution matched preceding following captures t2)
                 else (if 1 \<le> digitValue d \<and> digitValue d \<le> length captures
                       then captures ! (digitValue d - 1)
                            @ GetSubstitution matched preceding following captures t
                       else CHR ''$'' # d # GetSubstitution matched preceding following captures t))
            | [] \<Rightarrow>
                (if 1 \<le> digitValue d \<and> digitValue d \<le> length captures
                 then captures ! (digitValue d - 1)
                 else [CHR ''$'', d]))
      else CHR ''$'' # GetSubstitution matched preceding following captures (d # t))"

lemma firstMatch_shorter:
  "firstMatch as s = Some (g1, g2, rest) \<Longrightarrow> length rest < length s"
proof (induction as)
  case Nil
  then show ?case by simp
next
  case (Cons a as)
  show ?case
  proof (cases "matchAlternative a s")
    case None
    with Cons show ?thesis by simp
  next
    case (Some m)
    with Cons.prems have "matchAlternative a s = Some (g1, g2, rest)" by simp
    then obtain e q sl where "drop (length a) s = e # q # sl # rest"
      by (auto simp: matchAlternative_def split: if_splits list.splits)
    then have "length (drop (length a) s) = length rest + 3" by simp
    then show ?thesis by simp
  qed
qed

lemma RegExp_match_shorter:
  "RegExp_match s = Some (g1, g2, rest) \<Longrightarrow> length rest < length s"
  unfolding RegExp_match_def by (rule firstMatch_shorter)

text \<open>
  \<open>text.replace(regex, template)\<close> with the global flag: the text is scanned from left
  to right, the pattern is tried at each position, a match is replaced by the
  substitution and the scan goes on after it. \<open>preceding\<close> is the text already passed.
\<close>

function replaceAll :: "string \<Rightarrow> string \<Rightarrow> string \<Rightarrow> string" where
  "replaceAll template preceding [] = []"
| "replaceAll template preceding (c # cs) =
     (case RegExp_match (c # cs) of
        None \<Rightarrow> c # replaceAll template (preceding @ [c]) cs
      | Some (g1, g2, rest) \<Rightarrow>
          GetSubstitution (g1 @ ''/'') preceding rest [g1, g2] template
          @ replaceAll template (preceding @ g1 @ ''/'') rest)"
  by pat_completeness auto
termination
  by (relation "measure (\<lambda>(t, b, s). length s)")
     (auto dest: RegExp_match_shorter)

definition replaceRelativePaths :: "string \<Rightarrow> string \<Rightarrow> string \<Rightarrow> string \<Rightarrow> string" where
  "replaceRelativePaths text aProtocol aHost anOrigin =
     replaceAll (''$1'' @ aProtocol @ ''//'' @ aHost @ ''/'' @ anOrigin @ ''/'') [] text"

definition handleHtmlContent ::
  "platform \<Rightarrow> Response \<Rightarrow> string \<Rightarrow> string \<Rightarrow> string \<Rightarrow> js_error + string" where
  "handleHtmlContent P response aProtocol aHost actualUrlStr =
     andThen (Response_text P response) (\<lambda>originalText.
     andThen (URL_new P actualUrlStr) (\<lambda>target.
       Inr (replaceRelativePaths originalText aProtocol aHost (origin target))))"

subsection \<open>The fetch handler\<close>

text \<open>
  Lines 16 to 22: the value of the variable \<open>actualUrlStr\<close> when the outbound request is
  built, or the error thrown by \<open>decodeURIComponent\<close>.
\<close>

definition actualUrlStr :: "URL \<Rightarrow> js_error + string" where
  "actualUrlStr url =
     andThen (decodeURIComponent (String_replace (pathname url) ''/'' [])) (\<lambda>decoded.
       Inr (ensureProtocol decoded (protocol url) @ search url))"

text \<open>
  Lines 48 to 61: \<open>modifiedResponse\<close> is built from the chosen body and the upstream
  status, status text and headers; then the cache and CORS headers are set on it.
\<close>

definition modifiedResponse :: "Response \<Rightarrow> BodyInit \<Rightarrow> js_error + Response" where
  "modifiedResponse response b =
     andThen (Response_new b (status response) (statusText response)
               (FromHeaders (headers response))) (\<lambda>r.
     andThen (setNoCacheHeaders (headers r)) (\<lambda>h1.
     andThen (setCorsHeaders h1) (\<lambda>h2.
       Inr (r\<lparr>headers := h2\<rparr>))))"

text \<open>
  Lines 37 to 61: what the handler does with the upstream response. The redirect
  branch returns at once; the other two choose the body and go on to
  \<open>modifiedResponse\<close>.
\<close>

definition respond :: "platform \<Rightarrow> URL \<Rightarrow> string \<Rightarrow> Response \<Rightarrow> js_error + Response" where
  "respond P url target response =
     (if status response \<in> set [301, 302, 303, 307, 308]
      then handleRedirect P response (body response)
      else if (case Headers_get (headers response) ''Content-Type'' of
                 None \<Rightarrow> False
               | Some ct \<Rightarrow> String_includes ct ''text/html'')
      then andThen (handleHtmlContent P response (protocol url) (host url) target)
             (\<lambda>modifiedText. modifiedResponse response (BodyText modifiedText))
      else modifiedResponse response (BodyOf (body response)))"

text \<open>
  The body of the \<open>try\<close> block. The first component is the list of requests handed to
  the global \<open>fetch\<close>, the second the returned response or the thrown error.
\<close>

definition fetch_try :: "platform \<Rightarrow> Request \<Rightarrow> Request list \<times> (js_error + Response)" where
  "fetch_try P request =
     (case URL_new P (req_url request) of
        Inl e \<Rightarrow> ([], Inl e)
      | Inr url \<Rightarrow>
          if pathname url = ''/''
          then ([], Response_new (BodyText (getRootHtml P)) 200 []
                      (FromPairs [(''Content-Type'', ''text/html; charset=utf-8'')]))
          else (case actualUrlStr url of
                  Inl e \<Rightarrow> ([], Inl e)
                | Inr target \<Rightarrow>
                    (case filterHeaders (req_headers request) (\<lambda>name. \<not> startsWith name ''cf-'') of
                       Inl e \<Rightarrow> ([], Inl e)
                     | Inr newHeaders \<Rightarrow>
                         (case Request_new P target
                                 \<lparr>init_headers = newHeaders, init_method = req_method request,
                                  init_body = req_body request, init_redirect = ''manual''\<rparr> of
                            Inl e \<Rightarrow> ([], Inl e)
                          | Inr modifiedRequest \<Rightarrow>
                              ([modifiedRequest],
                               andThen (global_fetch P modifiedRequest) (respond P url target))))))"

text \<open>
  The handler: the \<open>catch\<close> clause turns a thrown error into \<open>jsonResponse\<close>. \<open>Inl\<close> in
  the result would be an error that leaves the handler.
\<close>

definition fetch :: "platform \<Rightarrow> Request \<Rightarrow> Request list \<times> (js_error + Response)" where
  "fetch P request =
     (case fetch_try P request of
        (sent, Inl error) \<Rightarrow> (sent, jsonResponse [(''error'', message error)] 500)
      | (sent, Inr response) \<Rightarrow> (sent, Inr response))"

section \<open>Vocabulary of the properties\<close>

text \<open>
  The pipeline reaches the upstream: the inbound URL parses to \<open>url\<close> and is not the
  root, \<open>target\<close> is the resolved string, \<open>sent\<close> is the outbound request built from it
  and from the filtered headers, and the upstream answers \<open>sent\<close> with \<open>response\<close>.
\<close>

definition forwards :: "platform \<Rightarrow> Request \<Rightarrow> URL \<Rightarrow> string \<Rightarrow> Request \<Rightarrow> Response \<Rightarrow> bool" where
  "forwards P request url target sent response =
     (URL_new P (req_url request) = Inr url \<and> pathname url \<noteq> ''/''
      \<and> actualUrlStr url = Inr target
      \<and> (case filterHeaders (req_headers request) (\<lambda>name. \<not> startsWith name ''cf-'') of
            Inl e \<Rightarrow> False
          | Inr newHeaders \<Rightarrow>
              Request_new P target
                \<lparr>init_headers = newHeaders, init_method = req_method request,
                 init_body = req_body request, init_redirect = ''manual''\<rparr> = Inr sent)
      \<and> global_fetch P sent = Inr response)"

text \<open>The error envelope: what \<open>jsonResponse({error: m}, 500)\<close> is to return.\<close>

definition errorEnvelope :: "string \<Rightarrow> Response" where
  "errorEnvelope m =
     \<lparr>status = 500, statusText = [],
      headers = [(''Content-Type'', ''application/json; charset=utf-8'')],
      body = Some (JSON_stringify [(''error'', m)])\<rparr>"

text \<open>A string of ASCII characters only, as every serialised URL is.\<close>

definition ascii :: "string \<Rightarrow> bool" where
  "ascii s = list_all (\<lambda>c. code c < 128) s"

text \<open>
  A malformed percent-encoding: somewhere in the text a \<open>%\<close> is not followed by two
  hexadecimal digits.
\<close>

definition hexPair :: "string \<Rightarrow> bool" where
  "hexPair s = (case s of a # b # _ \<Rightarrow> ParseHexOctet a b \<noteq> None | _ \<Rightarrow> False)"

fun malformedEscape :: "string \<Rightarrow> bool" where
  "malformedEscape [] = False"
| "malformedEscape (c # cs) = ((c = CHR ''%'' \<and> \<not> hexPair cs) \<or> malformedEscape cs)"






text \<open>The characters that \<open>encodeURIComponent\<close> produces.\<close>

definition uriChar :: "char \<Rightarrow> bool" where
  "uriChar c = (uriUnreserved c \<or> c = CHR ''%'' \<or> c \<in> set ''0123456789ABCDEF'')"

text \<open>
  The invariant of a \<open>Headers\<close> object: every stored header passed the validation of
  \<open>append\<close> or \<open>set\<close>, so its name is a token and its value is normalised and has no
  forbidden byte.
\<close>

definition validHeader :: "string \<times> string \<Rightarrow> bool" where
  "validHeader x = (validName (fst x) \<and> validValue (snd x) \<and> normalizeValue (snd x) = snd x)"

definition validHeaders :: "Headers \<Rightarrow> bool" where
  "validHeaders h = list_all validHeader h"

text \<open>
  Names for the parts of \<open>Headers_entries\<close>: the sorted lower-cased names, the entries
  under one of them, and a header whose name is already in lower case.
\<close>

definition sortedNames :: "Headers \<Rightarrow> string list" where
  "sortedNames h = sort (remdups (map (\<lambda>x. lowercase (fst x)) h))"

definition entriesOf :: "Headers \<Rightarrow> string \<Rightarrow> (string \<times> string) list" where
  "entriesOf h n = (if n = ''set-cookie'' then map (Pair n) (headerValues h n)
                    else [(n, join '', '' (headerValues h n))])"

definition lowerFixed :: "string \<times> string \<Rightarrow> bool" where
  "lowerFixed x = (lowercase (fst x) = fst x)"


text \<open>
  Reading a JSON string literal back, for the literals that \<open>QuoteJSONString\<close> writes:
  the two-character escapes and the \<open>u\<close> escapes of the control characters.
\<close>

fun unescapeJSON :: "string \<Rightarrow> string option" where
  "unescapeJSON [] = Some []"
| "unescapeJSON (c # cs) =
     (if c = CHR 0x5C
      then (case cs of
              [] \<Rightarrow> None
            | e # rest \<Rightarrow>
                (if e = CHR ''b'' then map_option ((#) (CHR 0x08)) (unescapeJSON rest)
                 else if e = CHR ''t'' then map_option ((#) (CHR 0x09)) (unescapeJSON rest)
                 else if e = CHR ''n'' then map_option ((#) (CHR 0x0A)) (unescapeJSON rest)
                 else if e = CHR ''f'' then map_option ((#) (CHR 0x0C)) (unescapeJSON rest)
                 else if e = CHR ''r'' then map_option ((#) (CHR 0x0D)) (unescapeJSON rest)
                 else if e = CHR 0x22 then map_option ((#) (CHR 0x22)) (unescapeJSON rest)
                 else if e = CHR 0x5C then map_option ((#) (CHR 0x5C)) (unescapeJSON rest)
                 else if e = CHR ''u''
                 then (case rest of
                         z1 # z2 # a # b # rest' \<Rightarrow>
                           (if z1 = CHR ''0'' \<and> z2 = CHR ''0''
                            then (case ParseHexOctet a b of
                                    None \<Rightarrow> None
                                  | Some n \<Rightarrow> map_option ((#) (char_of n)) (unescapeJSON rest'))
                            else None)
                       | _ \<Rightarrow> None)
                 else None))
      else if c = CHR 0x22 \<or> code c < 32 then None
      else map_option ((#) c) (unescapeJSON cs))"

definition parseJSONString :: "string \<Rightarrow> string option" where
  "parseJSONString s =
     (case s of
        q # rest \<Rightarrow>
          (if q = CHR 0x22 \<and> rest \<noteq> [] \<and> last rest = CHR 0x22
           then unescapeJSON (butlast rest) else None)
      | [] \<Rightarrow> None)"

section \<open>A concrete platform\<close>

text \<open>
  To run the handler on concrete requests. \<open>demo_URL\<close> parses the plain URLs of the
  examples: scheme \<open>http\<close> or \<open>https\<close>, a host, then optionally a path and a query, with
  no credentials, port, fragment, upper-case letter, dot segment or character that the
  URL standard would escape; on these it returns what the standard parser returns.
  Like the standard parser without a base, it refuses a string with no scheme. The
  upstream is a parameter.
\<close>

definition demo_URL :: "string \<Rightarrow> js_error + URL" where
  "demo_URL s =
     (let scheme = (if startsWith s ''https://'' then ''https:''
                    else if startsWith s ''http://'' then ''http:'' else []);
          rest = drop (length scheme + 2) s;
          h = takeWhile (\<lambda>c. c \<noteq> CHR ''/'' \<and> c \<noteq> CHR ''?'') rest;
          r1 = dropWhile (\<lambda>c. c \<noteq> CHR ''/'' \<and> c \<noteq> CHR ''?'') rest;
          p = takeWhile (\<lambda>c. c \<noteq> CHR ''?'') r1;
          q = dropWhile (\<lambda>c. c \<noteq> CHR ''?'') r1;
          path = (if p = [] then ''/'' else p)
      in if scheme = [] \<or> h = [] then Inl (TypeError ''Invalid URL'')
         else Inr \<lparr>href = scheme @ ''//'' @ h @ path @ q, protocol = scheme, host = h,
                   pathname = path, search = (if q = ''?'' then [] else q),
                   origin = scheme @ ''//'' @ h\<rparr>)"

definition demo_Request :: "string \<Rightarrow> RequestInit \<Rightarrow> js_error + Request" where
  "demo_Request s init =
     andThen (demo_URL s) (\<lambda>u.
     andThen (Headers_new (FromHeaders (init_headers init))) (\<lambda>h.
       Inr \<lparr>req_url = href u, req_method = init_method init, req_headers = h,
            req_body = init_body init\<rparr>))"

definition demo_platform :: "(Request \<Rightarrow> js_error + Response) \<Rightarrow> platform" where
  "demo_platform upstream =
     \<lparr>URL_new = demo_URL, Request_new = demo_Request, global_fetch = upstream,
      Response_text = (\<lambda>r. Inr (case body r of None \<Rightarrow> [] | Some b \<Rightarrow> b)),
      rootHtml = ''<!DOCTYPE html>''\<rparr>"

text \<open>A \<open>GET\<close> request for the given URL, with headers as an edge network delivers them.\<close>

definition demo_request :: "string \<Rightarrow> Request" where
  "demo_request u =
     \<lparr>req_url = u, req_method = ''GET'',
      req_headers = [(''Host'', ''relay.example''), (''CF-Ray'', ''abc''),
                     (''Accept'', ''*/*''), (''cf-connecting-ip'', ''192.0.2.1'')],
      req_body = None\<rparr>"

text \<open>Upstream behaviours for the examples.\<close>

definition upstream_plain :: "Request \<Rightarrow> js_error + Response" where
  "upstream_plain r =
     Inr \<lparr>status = 200, statusText = ''OK'', headers = [(''Content-Type'', ''text/plain'')],
          body = Some ''hello''\<rparr>"

definition upstream_unreachable :: "Request \<Rightarrow> js_error + Response" where
  "upstream_unreachable r = Inl (TypeError ''Network connection lost.'')"

definition redirect_relative :: Response where
  "redirect_relative =
     \<lparr>status = 302, statusText = ''Found'', headers = [(''Location'', ''/next'')],
      body = None\<rparr>"

definition redirect_absolute :: Response where
  "redirect_absolute =
     \<lparr>status = 302, statusText = ''Found'',
      headers = [(''Location'', ''https://example.com/next''), (''Set-Cookie'', ''a=1''),
                 (''Set-Cookie'', ''b=2''), (''Content-Type'', ''text/html'')],
      body = Some ''moved''\<rparr>"

definition logoTag :: string where
  "logoTag = ''<img src='' @ [CHR 0x22] @ ''/logo.png'' @ [CHR 0x22] @ ''>''"

definition html_page :: Response where
  "html_page =
     \<lparr>status = 200, statusText = ''OK'',
      headers = [(''Content-Type'', ''text/html; charset=utf-8''),
                 (''Cache-Control'', ''max-age=3600''),
                 (''Access-Control-Allow-Origin'', ''https://example.com'')],
      body = Some logoTag\<rparr>"

definition html_page_uppercase :: Response where
  "html_page_uppercase =
     \<lparr>status = 200, statusText = ''OK'', headers = [(''Content-Type'', ''TEXT/HTML'')],
      body = Some logoTag\<rparr>"

text \<open>The inbound request of the examples, its parsed URL, and the request it is turned into.\<close>

definition relay_request :: Request where
  "relay_request = demo_request ''https://relay.example/example.com/a''"

definition relay_url :: URL where
  "relay_url =
     \<lparr>href = ''https://relay.example/example.com/a'', protocol = ''https:'',
      host = ''relay.example'', pathname = ''/example.com/a'', search = [],
      origin = ''https://relay.example''\<rparr>"

definition relay_sent :: Request where
  "relay_sent =
     \<lparr>req_url = ''https://example.com/a'', req_method = ''GET'',
      req_headers = [(''accept'', ''*/*''), (''host'', ''relay.example'')],
      req_body = None\<rparr>"

definition next_url :: URL where
  "next_url =
     \<lparr>href = ''https://example.com/next'', protocol = ''https:'', host = ''example.com'',
      pathname = ''/next'', search = [], origin = ''https://example.com''\<rparr>"

text \<open>Inbound headers with a repeated name and a name of the hosting platform.\<close>

definition repeated_headers :: Headers where
  "repeated_headers = [(''x-b'', ''1''), (''cf-ray'', ''abc''), (''x-a'', ''2''), (''x-b'', ''3'')]"

text \<open>A protocol-relative reference, and a path inside a script.\<close>

definition cdnTag :: string where
  "cdnTag = ''<img src='' @ [CHR 0x22] @ ''//cdn.example.com/x.png'' @ [CHR 0x22] @ ''>''"


section \<open>Properties\<close>

subsection \<open>Strings and scheme detection\<close>

lemma length_lowercase: "length (lowercase s) = length s"
  by (simp add: lowercase_def)

lemma take_lowercase: "take n (lowercase s) = lowercase (take n s)"
  by (simp add: lowercase_def take_map)

lemma startsWith_http: "startsWith x ''http://'' \<longleftrightarrow> take 7 x = ''http://''"
  by (simp add: startsWith_def eval_nat_numeral)

lemma startsWith_https: "startsWith x ''https://'' \<longleftrightarrow> take 8 x = ''https://''"
  by (simp add: startsWith_def eval_nat_numeral)

lemma lowercase_http: "lowercase ''http://'' = ''http://''"
  by (simp add: lowercase_def toLowerASCII_def code_def)

lemma lowercase_https7: "lowercase ''https:/'' = ''https:/''"
  by (simp add: lowercase_def toLowerASCII_def code_def)

text \<open>
  Claim C9. Scheme detection in \<open>ensureProtocol\<close> is case-sensitive: a decoded path
  that begins with \<open>http://\<close> or \<open>https://\<close> written with at least one upper-case letter
  is not taken as having a scheme, and the inbound protocol and \<open>//\<close> are put in front
  of it.
\<close>

theorem ensureProtocol_case_sensitive:
  assumes low: "lowercase s = ''http://'' \<or> lowercase s = ''https://''"
    and ne: "s \<noteq> ''http://''" "s \<noteq> ''https://''"
  shows "ensureProtocol (s @ rest) p = p @ ''//'' @ s @ rest"
proof -
  have a: "\<not> startsWith (s @ rest) ''http://''"
  proof
    assume h: "startsWith (s @ rest) ''http://''"
    from low show False
    proof
      assume l: "lowercase s = ''http://''"
      then have "length s = 7" using length_lowercase [of s] by simp
      with h have "s = ''http://''" by (simp add: startsWith_http)
      with ne show False by simp
    next
      assume l: "lowercase s = ''https://''"
      then have "length s = 8" using length_lowercase [of s] by simp
      with h have "take 7 s = ''http://''" by (simp add: startsWith_http)
      then have "lowercase (take 7 s) = ''http://''" using lowercase_http by simp
      then have "take 7 (lowercase s) = ''http://''" by (simp add: take_lowercase)
      with l show False by simp
    qed
  qed
  have b: "\<not> startsWith (s @ rest) ''https://''"
  proof
    assume h: "startsWith (s @ rest) ''https://''"
    from low show False
    proof
      assume l: "lowercase s = ''http://''"
      then have len: "length s = 7" using length_lowercase [of s] by simp
      from h have "take 7 (take 8 (s @ rest)) = take 7 ''https://''"
        by (simp only: startsWith_https)
      with len have "s = ''https:/''" by simp
      with l lowercase_https7 show False by simp
    next
      assume l: "lowercase s = ''https://''"
      then have "length s = 8" using length_lowercase [of s] by simp
      with h have "s = ''https://''" by (simp add: startsWith_https)
      with ne show False by simp
    qed
  qed
  from a b show ?thesis by (simp add: ensureProtocol_def)
qed

theorem ensureProtocol_case_sensitive_witness:
  "lowercase ''HTTP://'' = ''http://''
   \<and> ensureProtocol ''HTTP://example.com'' ''https:'' = ''https://HTTP://example.com''"
proof -
  have l: "lowercase ''HTTP://'' = ''http://''" by code_simp
  show ?thesis
    using ensureProtocol_case_sensitive [of "''HTTP://''" "''example.com''" "''https:''"] l
    by simp
qed

subsection \<open>The error envelope\<close>

lemma validName_ContentType: "validName ''Content-Type''"
  by (simp add: validName_def tchar_def)

lemma normalizeValue_json:
  "normalizeValue ''application/json; charset=utf-8'' = ''application/json; charset=utf-8''"
  by (simp add: normalizeValue_def httpWhitespace_def)

lemma jsonResponse_500: "jsonResponse [(''error'', m)] 500 = Inr (errorEnvelope m)"
  by (simp add: jsonResponse_def Response_new_def andThen_def Headers_append_def
      validName_ContentType normalizeValue_json validValue_def Headers_get_def
      headerValues_def sameName_def errorEnvelope_def)

lemma fetch_catch:
  "snd (fetch P request) =
     (case snd (fetch_try P request) of
        Inl error \<Rightarrow> Inr (errorEnvelope (message error))
      | Inr response \<Rightarrow> Inr response)"
  by (simp add: fetch_def jsonResponse_500 split: prod.splits sum.splits)

lemma fetch_sent: "fst (fetch P request) = fst (fetch_try P request)"
  by (simp add: fetch_def split: prod.splits sum.splits)

lemma String_replace_leading_slash: "String_replace (CHR ''/'' # p) ''/'' [] = p"
  by (simp add: startsWith_def)

text \<open>The message can be read back from the body: quoting is undone by parsing.\<close>

lemma hexValue_hexDigitLower_all: "\<forall>n \<in> set [0..<16]. hexValue (hexDigitLower n) = Some n"
  by code_simp

lemma hexValue_hexDigitLower: "n < 16 \<Longrightarrow> hexValue (hexDigitLower n) = Some n"
  using hexValue_hexDigitLower_all by simp

lemma ParseHexOctet_hexDigitLower:
  "n < 256 \<Longrightarrow> ParseHexOctet (hexDigitLower (n div 16)) (hexDigitLower (n mod 16)) = Some n"
  by (simp add: ParseHexOctet_def hexValue_hexDigitLower)

lemma code_special:
  "code (CHR 0x5C) = 92" "code (CHR 0x22) = 34" "code (CHR 0x08) = 8" "code (CHR 0x09) = 9"
  "code (CHR 0x0A) = 10" "code (CHR 0x0C) = 12" "code (CHR 0x0D) = 13"
  by (simp_all add: code_def)

lemma unescape_quoteJSONChar:
  "unescapeJSON (quoteJSONChar c @ rest) = map_option ((#) c) (unescapeJSON rest)"
proof -
  consider "c = CHR 0x08" | "c = CHR 0x09" | "c = CHR 0x0A" | "c = CHR 0x0C" | "c = CHR 0x0D"
    | "c = CHR 0x22" | "c = CHR 0x5C"
    | "c \<notin> {CHR 0x08, CHR 0x09, CHR 0x0A, CHR 0x0C, CHR 0x0D, CHR 0x22, CHR 0x5C}" "code c < 32"
    | "c \<notin> {CHR 0x08, CHR 0x09, CHR 0x0A, CHR 0x0C, CHR 0x0D, CHR 0x22, CHR 0x5C}" "\<not> code c < 32"
    by blast
  then show ?thesis
  proof cases
    case 8
    then have q: "quoteJSONChar c = [CHR 0x5C, CHR ''u'', CHR ''0'', CHR ''0'',
            hexDigitLower (code c div 16), hexDigitLower (code c mod 16)]"
      by (simp add: quoteJSONChar_def)
    from 8 have "ParseHexOctet (hexDigitLower (code c div 16)) (hexDigitLower (code c mod 16)) = Some (code c)"
      by (simp add: ParseHexOctet_hexDigitLower)
    moreover have "char_of (code c) = c" by (simp add: code_def)
    ultimately show ?thesis unfolding q by simp
  next
    case 9
    then have q: "quoteJSONChar c = [c]" by (simp add: quoteJSONChar_def)
    from 9 show ?thesis unfolding q by simp
  qed (simp_all add: quoteJSONChar_def)
qed

lemma unescape_quote: "unescapeJSON (concat (map quoteJSONChar s)) = Some s"
  by (induction s) (simp_all add: unescape_quoteJSONChar)

lemma parse_QuoteJSONString: "parseJSONString (QuoteJSONString s) = Some s"
  by (simp add: parseJSONString_def QuoteJSONString_def unescape_quote)

lemma error_body_text:
  "JSON_stringify [(''error'', m)] = ''{'' @ [CHR 0x22] @ ''error'' @ [CHR 0x22] @ '':'' @ QuoteJSONString m @ ''}''"
  by (simp add: JSON_stringify_def QuoteJSONString_def quoteJSONChar_def code_def)

text \<open>
  Claim C8. An error raised anywhere in the \<open>try\<close> block is caught by the one \<open>catch\<close>
  clause and becomes a response with status 500, the content type
  \<open>application/json; charset=utf-8\<close> and a JSON body with the single key \<open>error\<close>, whose
  value is the string literal of the message of the error, and nothing else.
\<close>

theorem errors_become_envelope:
  assumes "snd (fetch_try P request) = Inl error"
  shows "snd (fetch P request) = Inr (errorEnvelope (message error))
    \<and> body (errorEnvelope (message error)) =
        Some (''{'' @ QuoteJSONString ''error'' @ '':'' @ QuoteJSONString (message error) @ ''}'')
    \<and> parseJSONString (QuoteJSONString (message error)) = Some (message error)"
  using assms
  by (simp add: fetch_catch errorEnvelope_def JSON_stringify_def parse_QuoteJSONString)

lemma fetch_try_forwards:
  assumes "forwards P request url target sent response"
  shows "fetch_try P request = ([sent], respond P url target response)"
  using assms
  by (auto simp: forwards_def fetch_try_def andThen_def split: sum.splits)

subsection \<open>Resolving the target\<close>

lemma hexValue_percent: "hexValue c = Some x \<Longrightarrow> c \<noteq> CHR ''%''"
  by (auto simp: hexValue_def code_def)

lemma ParseHexOctet_percent:
  "ParseHexOctet a b = Some B \<Longrightarrow> a \<noteq> CHR ''%'' \<and> b \<noteq> CHR ''%''"
  by (auto simp: ParseHexOctet_def dest: hexValue_percent split: option.splits)

lemma malformedEscape_after_escape:
  "ParseHexOctet a b = Some B \<Longrightarrow> malformedEscape (CHR ''%'' # a # b # rest) \<Longrightarrow> malformedEscape rest"
  by (auto simp: hexPair_def dest: ParseHexOctet_percent)

lemma malformedEscape_readContinuation:
  "readContinuation j s = Some (octets, rest) \<Longrightarrow> malformedEscape s \<Longrightarrow> malformedEscape rest"
proof (induction j arbitrary: s octets)
  case 0
  then show ?case by simp
next
  case (Suc j)
  from Suc.prems(1) obtain a b r B os where
    s: "s = CHR ''%'' # a # b # r" and p: "ParseHexOctet a b = Some B"
    and rc: "readContinuation j r = Some (os, rest)"
    by (auto split: list.splits if_splits option.splits)
  from s p Suc.prems(2) have "malformedEscape r"
    using malformedEscape_after_escape by blast
  with rc Suc.IH show ?case by blast
qed

lemma Decode_malformed: "malformedEscape s \<Longrightarrow> Decode s = Inl uriMalformed"
proof (induction s rule: Decode.induct)
  case 1
  then show ?case by simp
next
  case (2 c cs)
  show ?case
  proof (cases "c = CHR ''%''")
    case False
    with "2.prems" have "malformedEscape cs" by simp
    with False "2.IH"(1) show ?thesis by simp
  next
    case True
    then have nn: "\<not> c \<noteq> CHR ''%''" by simp
    show ?thesis
    proof (cases "hexPair cs")
      case False
      with True show ?thesis
        by (auto simp: hexPair_def split: list.splits option.splits)
    next
      case hp: True
      then obtain a b rest B where cs: "cs = a # b # rest" and p: "ParseHexOctet a b = Some B"
        by (auto simp: hexPair_def split: list.splits)
      from "2.prems" True cs p have mr: "malformedEscape rest"
        using malformedEscape_after_escape by blast
      show ?thesis
      proof (cases "B < 128")
        case b: True
        from "2.IH"(2) [OF nn cs refl p b mr] have "Decode rest = Inl uriMalformed" .
        with True cs p b show ?thesis by simp
      next
        case b: False
        show ?thesis
        proof (cases "leadingOnes B = 1 \<or> 4 < leadingOnes B")
          case True
          with \<open>c = CHR ''%''\<close> cs p b show ?thesis by simp
        next
          case lo: False
          show ?thesis
          proof (cases "readContinuation (leadingOnes B - 1) rest")
            case None
            with \<open>c = CHR ''%''\<close> cs p b lo show ?thesis by simp
          next
            case (Some pr)
            obtain octets rest' where pr: "pr = (octets, rest')" by (cases pr)
            with Some have rc: "readContinuation (leadingOnes B - 1) rest = Some (octets, rest')"
              by simp
            with mr have m': "malformedEscape rest'"
              using malformedEscape_readContinuation by blast
            show ?thesis
            proof (cases "validUTF8 (B # octets)")
              case False
              with \<open>c = CHR ''%''\<close> cs p b lo rc show ?thesis by simp
            next
              case v: True
              from "2.IH"(3) [OF nn cs refl p b lo rc refl v m']
              have "Decode rest' = Inl uriMalformed" .
              with \<open>c = CHR ''%''\<close> cs p b lo rc v show ?thesis by simp
            qed
          qed
        qed
      qed
    qed
  qed
qed

lemma malformedEscape_nonempty: "malformedEscape p \<Longrightarrow> p \<noteq> []"
  by auto

text \<open>
  Whenever \<open>decodeURIComponent\<close> throws on the path, for a bad escape or for escaped
  octets that are not UTF-8, nothing is sent and the caller gets the envelope.
\<close>

lemma undecodable_path_error_envelope:
  assumes inbound: "URL_new P (req_url request) = Inr url"
    and path: "pathname url = CHR ''/'' # p"
    and nonroot: "p \<noteq> []"
    and d: "decodeURIComponent p = Inl e"
  shows "fetch P request = ([], Inr (errorEnvelope (message e)))"
proof -
  from path nonroot have nr: "pathname url \<noteq> ''/''" by simp
  from path have sr: "String_replace (pathname url) ''/'' [] = p"
    by (simp add: startsWith_def)
  from d have a: "actualUrlStr url = Inl e"
    unfolding actualUrlStr_def sr by (simp add: andThen_def)
  from inbound nr a have "fetch_try P request = ([], Inl e)"
    by (simp add: fetch_try_def)
  then show ?thesis
    by (simp add: fetch_def jsonResponse_500)
qed

lemma decode_invalid_utf8:
  "decodeURIComponent ''%ff'' = Inl uriMalformed"
  "decodeURIComponent ''%C3'' = Inl uriMalformed"
  "decodeURIComponent ''%ED%A0%80'' = Inl uriMalformed"
  by code_simp+

text \<open>
  Claim C10. When the inbound path, after its leading slash, contains a \<open>%\<close> that is
  not followed by two hexadecimal digits, \<open>decodeURIComponent\<close> throws, no request is
  handed to the global \<open>fetch\<close>, and the caller receives the error envelope with status
  500.
\<close>

theorem malformed_path_error_envelope:
  assumes inbound: "URL_new P (req_url request) = Inr url"
    and path: "pathname url = CHR ''/'' # p"
    and bad: "malformedEscape p"
  shows "decodeURIComponent p = Inl uriMalformed
    \<and> fetch P request = ([], Inr (errorEnvelope ''URI malformed''))"
proof -
  from bad have d: "decodeURIComponent p = Inl uriMalformed"
    by (simp add: decodeURIComponent_def Decode_malformed)
  from bad have "p \<noteq> []" by (rule malformedEscape_nonempty)
  with path have nr: "pathname url \<noteq> ''/''" by simp
  from path have sr: "String_replace (pathname url) ''/'' [] = p"
    by (simp add: startsWith_def)
  from d have a: "actualUrlStr url = Inl uriMalformed"
    unfolding actualUrlStr_def sr by (simp add: andThen_def)
  from inbound nr a have "fetch_try P request = ([], Inl uriMalformed)"
    by (simp add: fetch_try_def)
  then have "fetch P request = ([], Inr (errorEnvelope ''URI malformed''))"
    by (simp add: fetch_def jsonResponse_500 uriMalformed_def)
  with d show ?thesis by simp
qed

theorem malformed_path_error_envelope_witness:
  "malformedEscape ''%zz''
   \<and> fetch (demo_platform upstream_plain) (demo_request ''https://relay.example/%zz'')
       = ([], Inr (errorEnvelope ''URI malformed''))"
proof -
  have u: "URL_new (demo_platform upstream_plain) (req_url (demo_request ''https://relay.example/%zz'')) =
     Inr \<lparr>href = ''https://relay.example/%zz'', protocol = ''https:'', host = ''relay.example'',
          pathname = ''/%zz'', search = [], origin = ''https://relay.example''\<rparr>"
    by code_simp
  have m: "malformedEscape ''%zz''" by code_simp
  show ?thesis
    using malformed_path_error_envelope [OF u _ m] m by simp
qed

text \<open>
  The examples of the specification: the scheme of the inbound request is the default,
  and an explicit scheme in the path is kept.
\<close>

lemma scheme_default:
  "actualUrlStr \<lparr>href = ''http://relay.example/example.com/a'', protocol = ''http:'',
                 host = ''relay.example'', pathname = ''/example.com/a'', search = [],
                 origin = ''http://relay.example''\<rparr> = Inr ''http://example.com/a''"
  by code_simp

lemma explicit_scheme_preserved:
  "actualUrlStr \<lparr>href = ''https://relay.example/http%3A%2F%2Fexample.com'', protocol = ''https:'',
                 host = ''relay.example'', pathname = ''/http%3A%2F%2Fexample.com'', search = [],
                 origin = ''https://relay.example''\<rparr> = Inr ''http://example.com''"
  by code_simp

text \<open>
  Claim C3. For an inbound request whose path is not the root, the resolved target is
  the percent-decoded path after the leading slash, as it is when it begins with
  \<open>http://\<close> or \<open>https://\<close> and otherwise with the inbound protocol and \<open>//\<close> in front,
  followed by the inbound query string (with its \<open>?\<close>) once; the outbound request is
  built from this string.
\<close>

theorem target_url_resolution:
  assumes inbound: "URL_new P (req_url request) = Inr url"
    and path: "pathname url = CHR ''/'' # p"
    and nonroot: "p \<noteq> []"
  shows "actualUrlStr url =
           (case decodeURIComponent p of
              Inl e \<Rightarrow> Inl e
            | Inr decoded \<Rightarrow>
                Inr ((if startsWith decoded ''http://'' \<or> startsWith decoded ''https://''
                      then decoded else protocol url @ ''//'' @ decoded) @ search url))
    \<and> fst (fetch P request) =
           (case actualUrlStr url of
              Inl e \<Rightarrow> []
            | Inr target \<Rightarrow>
                (case filterHeaders (req_headers request) (\<lambda>name. \<not> startsWith name ''cf-'') of
                   Inl e \<Rightarrow> []
                 | Inr newHeaders \<Rightarrow>
                     (case Request_new P target
                             \<lparr>init_headers = newHeaders, init_method = req_method request,
                              init_body = req_body request, init_redirect = ''manual''\<rparr> of
                        Inl e \<Rightarrow> []
                      | Inr sent \<Rightarrow> [sent])))"
proof -
  from path have sr: "String_replace (pathname url) ''/'' [] = p"
    by (simp add: startsWith_def)
  have "actualUrlStr url =
           (case decodeURIComponent p of
              Inl e \<Rightarrow> Inl e
            | Inr decoded \<Rightarrow>
                Inr ((if startsWith decoded ''http://'' \<or> startsWith decoded ''https://''
                      then decoded else protocol url @ ''//'' @ decoded) @ search url))"
    unfolding actualUrlStr_def sr
    by (simp add: andThen_def ensureProtocol_def split: sum.splits)
  moreover from path nonroot have "pathname url \<noteq> ''/''" by simp
  with inbound have "fst (fetch_try P request) =
           (case actualUrlStr url of
              Inl e \<Rightarrow> []
            | Inr target \<Rightarrow>
                (case filterHeaders (req_headers request) (\<lambda>name. \<not> startsWith name ''cf-'') of
                   Inl e \<Rightarrow> []
                 | Inr newHeaders \<Rightarrow>
                     (case Request_new P target
                             \<lparr>init_headers = newHeaders, init_method = req_method request,
                              init_body = req_body request, init_redirect = ''manual''\<rparr> of
                        Inl e \<Rightarrow> []
                      | Inr sent \<Rightarrow> [sent])))"
    by (simp add: fetch_try_def split: sum.splits)
  ultimately show ?thesis by (simp add: fetch_sent)
qed

theorem target_url_resolution_witness:
  "actualUrlStr \<lparr>href = ''https://relay.example/example.com/a?x=1'', protocol = ''https:'',
                 host = ''relay.example'', pathname = ''/example.com/a'', search = ''?x=1'',
                 origin = ''https://relay.example''\<rparr> = Inr ''https://example.com/a?x=1''
   \<and> fst (fetch (demo_platform upstream_plain) (demo_request ''https://relay.example/example.com/a?x=1''))
       = [\<lparr>req_url = ''https://example.com/a?x=1'', req_method = ''GET'',
           req_headers = [(''accept'', ''*/*''), (''host'', ''relay.example'')],
           req_body = None\<rparr>]"
proof -
  let ?url = "\<lparr>href = ''https://relay.example/example.com/a?x=1'', protocol = ''https:'',
                 host = ''relay.example'', pathname = ''/example.com/a'', search = ''?x=1'',
                 origin = ''https://relay.example''\<rparr>"
  have u: "URL_new (demo_platform upstream_plain)
             (req_url (demo_request ''https://relay.example/example.com/a?x=1'')) = Inr ?url"
    by code_simp
  have d: "decodeURIComponent ''example.com/a'' = Inr ''example.com/a''" by code_simp
  have f: "filterHeaders (req_headers (demo_request ''https://relay.example/example.com/a?x=1''))
             (\<lambda>name. \<not> startsWith name ''cf-'')
           = Inr [(''accept'', ''*/*''), (''host'', ''relay.example'')]"
    by code_simp
  have r: "Request_new (demo_platform upstream_plain) ''https://example.com/a?x=1''
             \<lparr>init_headers = [(''accept'', ''*/*''), (''host'', ''relay.example'')],
              init_method = ''GET'', init_body = None, init_redirect = ''manual''\<rparr>
           = Inr \<lparr>req_url = ''https://example.com/a?x=1'', req_method = ''GET'',
                  req_headers = [(''accept'', ''*/*''), (''host'', ''relay.example'')],
                  req_body = None\<rparr>"
    by code_simp
  have m: "req_method (demo_request ''https://relay.example/example.com/a?x=1'') = ''GET''"
    and b: "req_body (demo_request ''https://relay.example/example.com/a?x=1'') = None"
    by (simp_all add: demo_request_def)
  from target_url_resolution [OF u, of "''example.com/a''"] d
  show ?thesis
    by (simp add: startsWith_http startsWith_https f r m b)
qed

subsection \<open>Redirects\<close>

lemma normalizeValue_id:
  assumes "v = [] \<or> (\<not> httpWhitespace (hd v) \<and> \<not> httpWhitespace (last v))"
  shows "normalizeValue v = v"
proof (cases "v = []")
  case True
  then show ?thesis by (simp add: normalizeValue_def)
next
  case False
  with assms have h: "\<not> httpWhitespace (hd v)" and l: "\<not> httpWhitespace (last v)" by auto
  from h have 1: "dropWhile httpWhitespace v = v" by (simp add: dropWhile_eq_self_iff)
  from False l have 2: "dropWhile httpWhitespace (rev v) = rev v"
    by (simp add: dropWhile_eq_self_iff hd_rev)
  from 1 2 show ?thesis by (simp add: normalizeValue_def)
qed

lemma hexDigit_all: "\<forall>n \<in> set [0..<16]. hexDigit n \<in> set ''0123456789ABCDEF''"
  by code_simp

lemma hexDigit_cases: "n < 16 \<Longrightarrow> hexDigit n \<in> set ''0123456789ABCDEF''"
  using hexDigit_all by simp

lemma code_less_256: "code c < 256"
proof -
  have "of_char c mod 256 = (of_char c :: nat)" by (rule of_char_mod_256)
  then show ?thesis unfolding code_def by (metis mod_less_divisor zero_less_numeral)
qed

lemma code_div_16: "code c div 16 < 16"
  using code_less_256 [of c] by simp

lemma encodeByte_chars: "x \<in> set (encodeByte c) \<Longrightarrow> uriChar x"
proof (cases "uriUnreserved c")
  case True
  assume "x \<in> set (encodeByte c)"
  with True show ?thesis by (simp add: encodeByte_def uriChar_def)
next
  case False
  assume "x \<in> set (encodeByte c)"
  with False have "x = CHR ''%'' \<or> x = hexDigit (code c div 16) \<or> x = hexDigit (code c mod 16)"
    by (simp add: encodeByte_def)
  moreover have "hexDigit (code c div 16) \<in> set ''0123456789ABCDEF''"
    by (rule hexDigit_cases [OF code_div_16])
  moreover have "hexDigit (code c mod 16) \<in> set ''0123456789ABCDEF''"
    by (rule hexDigit_cases) simp
  ultimately show ?thesis unfolding uriChar_def by blast
qed

lemma encodeURIComponent_chars: "x \<in> set (encodeURIComponent s) \<Longrightarrow> uriChar x"
  by (auto simp: encodeURIComponent_def dest: encodeByte_chars)

lemma uriChar_plain:
  "uriChar x \<Longrightarrow> \<not> httpWhitespace x \<and> x \<noteq> CHR 0x00 \<and> x \<noteq> CHR 0x0A \<and> x \<noteq> CHR 0x0D"
  by (auto simp: uriChar_def uriUnreserved_def httpWhitespace_def)

lemma modifiedLocation_valid:
  "validValue (''/'' @ encodeURIComponent s)
   \<and> normalizeValue (''/'' @ encodeURIComponent s) = ''/'' @ encodeURIComponent s"
proof -
  let ?v = "''/'' @ encodeURIComponent s"
  have all: "\<forall>x \<in> set ?v. \<not> httpWhitespace x \<and> x \<noteq> CHR 0x00 \<and> x \<noteq> CHR 0x0A \<and> x \<noteq> CHR 0x0D"
  proof
    fix x assume "x \<in> set ?v"
    then have "x = CHR ''/'' \<or> uriChar x" by (auto dest: encodeURIComponent_chars)
    then show "\<not> httpWhitespace x \<and> x \<noteq> CHR 0x00 \<and> x \<noteq> CHR 0x0A \<and> x \<noteq> CHR 0x0D"
      using uriChar_plain by (auto simp: httpWhitespace_def)
  qed
  then have v: "validValue ?v" by (simp add: validValue_def list_all_iff)
  have "?v \<noteq> []" by simp
  then have "hd ?v \<in> set ?v" and "last ?v \<in> set ?v"
    by (rule hd_in_set, rule last_in_set)
  with all have "\<not> httpWhitespace (hd ?v) \<and> \<not> httpWhitespace (last ?v)" by blast
  then have "normalizeValue ?v = ?v" by (rule normalizeValue_id [OF disjI2])
  with v show ?thesis by simp
qed

lemma validName_Location: "validName ''Location''"
  by (simp add: validName_def tchar_def)

lemma redirect_status_cases:
  "st \<in> set [301, 302, 303, 307, 308] \<Longrightarrow>
     \<not> st < 200 \<and> \<not> 599 < st \<and> st \<notin> set [101, 204, 205, 304 :: nat]"
  by auto

lemma handleRedirect_absolute:
  assumes st: "status response \<in> set [301, 302, 303, 307, 308]"
    and loc: "Headers_get (headers response) ''location'' = Some l"
    and abs: "URL_new P l = Inr location"
  shows "handleRedirect P response b =
           Inr \<lparr>status = status response, statusText = statusText response,
                headers = [(''Location'', ''/'' @ encodeURIComponent (href location))],
                body = b\<rparr>"
proof -
  note ml = modifiedLocation_valid [of "href location"]
  from redirect_status_cases [OF st] have r: "\<not> status response < 200" "\<not> 599 < status response"
    "status response \<notin> set [101, 204, 205, 304]" by auto
  have fill: "Headers_new (FromPairs [(''Location'', ''/'' @ encodeURIComponent (href location))])
      = Inr [(''Location'', ''/'' @ encodeURIComponent (href location))]"
    using ml by (simp add: Headers_append_def validName_Location andThen_def)
  show ?thesis
    using loc abs r fill
    by (cases b) (simp_all add: handleRedirect_def andThen_def Let_def ownEnumerableProperties_def
          Response_new_def)
qed

lemma handleRedirect_relative:
  assumes "URL_new P (nullable (Headers_get (headers response) ''location'')) = Inl e"
  shows "handleRedirect P response b = Inl e"
  using assms by (simp add: handleRedirect_def andThen_def)

lemma hexValue_hexDigit_all: "\<forall>n \<in> set [0..<16]. hexValue (hexDigit n) = Some n"
  by code_simp

lemma hexValue_hexDigit: "n < 16 \<Longrightarrow> hexValue (hexDigit n) = Some n"
  using hexValue_hexDigit_all by simp

lemma ParseHexOctet_hexDigit:
  "n < 256 \<Longrightarrow> ParseHexOctet (hexDigit (n div 16)) (hexDigit (n mod 16)) = Some n"
  by (simp add: ParseHexOctet_def hexValue_hexDigit)

lemma percent_not_unreserved: "\<not> uriUnreserved CHR ''%''"
  by (simp add: uriUnreserved_def)

lemma Decode_encodeByte:
  assumes "code c < 128"
  shows "Decode (encodeByte c @ rest) = map_sum id ((#) c) (Decode rest)"
proof (cases "uriUnreserved c")
  case True
  then have "c \<noteq> CHR ''%''" using percent_not_unreserved by auto
  with True show ?thesis by (simp add: encodeByte_def)
next
  case False
  from assms have "ParseHexOctet (hexDigit (code c div 16)) (hexDigit (code c mod 16)) = Some (code c)"
    by (simp add: ParseHexOctet_hexDigit)
  moreover have "char_of (code c) = c" by (simp add: code_def)
  ultimately show ?thesis using False assms by (simp add: encodeByte_def)
qed

lemma decode_encode_ascii:
  "ascii s \<Longrightarrow> decodeURIComponent (encodeURIComponent s) = Inr s"
  unfolding decodeURIComponent_def
proof (induction s)
  case Nil
  then show ?case by (simp add: encodeURIComponent_def)
next
  case (Cons c s)
  then have "Decode (encodeURIComponent s) = Inr s" and "code c < 128"
    by (simp_all add: ascii_def)
  then show ?case
    using Decode_encodeByte [of c "encodeURIComponent s"]
    by (simp add: encodeURIComponent_def)
qed

lemma fetch_forwards:
  assumes "forwards P request url target sent response"
  shows "fetch P request =
           ([sent], case respond P url target response of
                      Inl error \<Rightarrow> Inr (errorEnvelope (message error))
                    | Inr r \<Rightarrow> Inr r)"
  using fetch_try_forwards [OF assms]
  by (simp add: fetch_def jsonResponse_500 split: sum.splits)

lemma actualUrlStr_of_encoded:
  assumes a: "ascii h"
    and sch: "startsWith h ''http://'' \<or> startsWith h ''https://''"
    and path: "pathname u = ''/'' @ encodeURIComponent h"
    and q: "search u = []"
  shows "actualUrlStr u = Inr h"
proof -
  from path have sr: "String_replace (pathname u) ''/'' [] = encodeURIComponent h"
    by (simp add: startsWith_def)
  show ?thesis
    unfolding actualUrlStr_def sr
    using decode_encode_ascii [OF a] sch q
    by (simp add: andThen_def ensureProtocol_def)
qed

text \<open>
  Claim C1, as amended. For an upstream response with a redirect status whose
  \<open>Location\<close> header is itself an absolute URL (it parses with no base), the relay
  answers with the same status, status text and body and with the \<open>Location\<close> header
  \<open>/\<close> followed by the percent-encoded serialised location; percent-decoding that
  value after its slash gives the serialised location back; and when the location
  begins with \<open>http://\<close> or \<open>https://\<close>, resolving the path \<open>/\<close> plus the encoded
  location (with no query) through \<open>actualUrlStr\<close> gives the same absolute URL. A
  serialised URL is ASCII, which is the hypothesis \<open>ascii\<close>. A relative \<open>Location\<close> is
  not resolved against anything: \<open>new URL\<close> is called without a base.
\<close>

theorem redirect_location_rewrite:
  assumes fw: "forwards P request url target sent response"
    and st: "status response \<in> set [301, 302, 303, 307, 308]"
    and loc: "Headers_get (headers response) ''location'' = Some l"
    and abs: "URL_new P l = Inr location"
    and asc: "ascii (href location)"
  shows "snd (fetch P request) =
           Inr \<lparr>status = status response, statusText = statusText response,
                headers = [(''Location'', ''/'' @ encodeURIComponent (href location))],
                body = body response\<rparr>
    \<and> decodeURIComponent (encodeURIComponent (href location)) = Inr (href location)
    \<and> (\<forall>u. (startsWith (href location) ''http://'' \<or> startsWith (href location) ''https://'')
            \<and> pathname u = ''/'' @ encodeURIComponent (href location) \<and> search u = []
          \<longrightarrow> actualUrlStr u = Inr (href location))"
proof -
  have "respond P url target response = handleRedirect P response (body response)"
    using st by (simp add: respond_def)
  with handleRedirect_absolute [OF st loc abs, of "body response"] fetch_forwards [OF fw]
  have 1: "snd (fetch P request) =
           Inr \<lparr>status = status response, statusText = statusText response,
                headers = [(''Location'', ''/'' @ encodeURIComponent (href location))],
                body = body response\<rparr>"
    by simp
  from asc have 2: "decodeURIComponent (encodeURIComponent (href location)) = Inr (href location)"
    by (rule decode_encode_ascii)
  from asc have 3: "\<forall>u. (startsWith (href location) ''http://'' \<or> startsWith (href location) ''https://'')
            \<and> pathname u = ''/'' @ encodeURIComponent (href location) \<and> search u = []
          \<longrightarrow> actualUrlStr u = Inr (href location)"
    using actualUrlStr_of_encoded by blast
  from 1 2 3 show ?thesis by blast
qed

subsection \<open>Classification of the upstream response\<close>

lemma modifiedResponse_fields:
  assumes "modifiedResponse response b = Inr r"
  shows "status r = status response \<and> statusText r = statusText response \<and> body r = bodyBytes b"
  using assms
  by (auto simp: modifiedResponse_def Response_new_def andThen_def
      split: sum.splits if_splits)

text \<open>
  Claim C5, as amended. An upstream response takes exactly one of three branches, the
  redirect status first: with a status among 301, 302, 303, 307 and 308 it goes to
  \<open>handleRedirect\<close> whatever its content type; otherwise, if its \<open>Content-Type\<close> header
  contains \<open>text/html\<close> in exactly this lower-case spelling, its text is rewritten by
  \<open>handleHtmlContent\<close>; otherwise its body is passed on as it is.
\<close>

theorem response_classification:
  assumes fw: "forwards P request url target sent response"
  shows "(status response \<in> set [301, 302, 303, 307, 308] \<longrightarrow>
            snd (fetch_try P request) = handleRedirect P response (body response))
    \<and> (status response \<notin> set [301, 302, 303, 307, 308]
        \<and> (\<exists>ct. Headers_get (headers response) ''Content-Type'' = Some ct
                 \<and> String_includes ct ''text/html'') \<longrightarrow>
            snd (fetch_try P request) =
              andThen (handleHtmlContent P response (protocol url) (host url) target)
                (\<lambda>modifiedText. modifiedResponse response (BodyText modifiedText)))
    \<and> (status response \<notin> set [301, 302, 303, 307, 308]
        \<and> \<not> (\<exists>ct. Headers_get (headers response) ''Content-Type'' = Some ct
                   \<and> String_includes ct ''text/html'') \<longrightarrow>
            snd (fetch_try P request) = modifiedResponse response (BodyOf (body response)))
    \<and> (\<forall>r. modifiedResponse response (BodyOf (body response)) = Inr r \<longrightarrow>
            body r = body response)"
proof -
  have s: "snd (fetch_try P request) = respond P url target response"
    using fetch_try_forwards [OF fw] by simp
  have 1: "status response \<in> set [301, 302, 303, 307, 308] \<longrightarrow>
            snd (fetch_try P request) = handleRedirect P response (body response)"
    unfolding s by (simp add: respond_def)
  have 2: "status response \<notin> set [301, 302, 303, 307, 308]
        \<and> (\<exists>ct. Headers_get (headers response) ''Content-Type'' = Some ct
                 \<and> String_includes ct ''text/html'') \<longrightarrow>
            snd (fetch_try P request) =
              andThen (handleHtmlContent P response (protocol url) (host url) target)
                (\<lambda>modifiedText. modifiedResponse response (BodyText modifiedText))"
    unfolding s by (auto simp: respond_def)
  have 3: "status response \<notin> set [301, 302, 303, 307, 308]
        \<and> \<not> (\<exists>ct. Headers_get (headers response) ''Content-Type'' = Some ct
                   \<and> String_includes ct ''text/html'') \<longrightarrow>
            snd (fetch_try P request) = modifiedResponse response (BodyOf (body response))"
    unfolding s by (auto simp: respond_def split: option.splits)
  have 4: "\<forall>r. modifiedResponse response (BodyOf (body response)) = Inr r \<longrightarrow>
            body r = body response"
    using modifiedResponse_fields by fastforce
  from 1 2 3 4 show ?thesis by blast
qed

subsection \<open>The cache and CORS headers\<close>

text \<open>
  \<open>headers.set\<close> overwrites: afterwards the name has the one value set, and the other
  names have what they had. So a response that leaves \<open>modifiedResponse\<close> carries the
  four policy headers with exactly their values, whatever the upstream sent under
  these names.
\<close>

lemma find_None_filter: "find P xs = None \<Longrightarrow> filter P xs = []"
  by (induction xs) (auto split: if_splits)

lemma find_Some_ex: "find P xs = Some x \<Longrightarrow> \<exists>y \<in> set xs. P y"
  by (induction xs) (auto split: if_splits)

lemma sameName_fst: "sameName n (fst x, v) = sameName n x"
  by (simp add: sameName_def)

lemma headerValues_setFirst_same:
  "\<exists>y \<in> set h. sameName n y \<Longrightarrow> headerValues (setFirst n v h) n = [v]"
proof (induction h)
  case Nil
  then show ?case by simp
next
  case (Cons x h)
  show ?case
  proof (cases "sameName n x")
    case True
    have "filter (sameName n) (filter (\<lambda>y. \<not> sameName n y) h) = []"
      by (induction h) auto
    with True show ?thesis by (simp add: headerValues_def sameName_fst)
  next
    case False
    with Cons show ?thesis by (simp add: headerValues_def)
  qed
qed

lemma sameName_other:
  "lowercase m \<noteq> lowercase n \<Longrightarrow> sameName n x \<Longrightarrow> \<not> sameName m x"
  by (auto simp: sameName_def)

lemma headerValues_setFirst_other:
  assumes "lowercase m \<noteq> lowercase n"
  shows "headerValues (setFirst n v h) m = headerValues h m"
proof (induction h)
  case Nil
  then show ?case by simp
next
  case (Cons x h)
  show ?case
  proof (cases "sameName n x")
    case True
    then have nx: "\<not> sameName m x" using assms sameName_other by blast
    have "filter (sameName m) (filter (\<lambda>y. \<not> sameName n y) h) = filter (sameName m) h"
      using assms by (induction h) (auto dest: sameName_other)
    with True nx show ?thesis by (simp add: headerValues_def sameName_fst)
  next
    case False
    with Cons show ?thesis by (simp add: headerValues_def)
  qed
qed

lemma Headers_get_set_same:
  assumes "Headers_set h n v = Inr h'"
  shows "Headers_get h' n = Some (normalizeValue v)"
proof -
  from assms have h': "h' = (case find (sameName n) h of
                  None \<Rightarrow> h @ [(n, normalizeValue v)]
                | Some x \<Rightarrow> setFirst n (normalizeValue v) h)"
    by (simp add: Headers_set_def split: if_splits)
  have "headerValues h' n = [normalizeValue v]"
  proof (cases "find (sameName n) h")
    case None
    then have "filter (sameName n) h = []" by (rule find_None_filter)
    with None h' show ?thesis by (simp add: headerValues_def sameName_def)
  next
    case (Some x)
    then have "\<exists>y \<in> set h. sameName n y" by (rule find_Some_ex)
    with Some h' show ?thesis by (simp add: headerValues_setFirst_same)
  qed
  then show ?thesis by (simp add: Headers_get_def)
qed

lemma Headers_get_set_other:
  assumes "Headers_set h n v = Inr h'" and "lowercase m \<noteq> lowercase n"
  shows "Headers_get h' m = Headers_get h m"
proof -
  from assms have h': "h' = (case find (sameName n) h of
                  None \<Rightarrow> h @ [(n, normalizeValue v)]
                | Some x \<Rightarrow> setFirst n (normalizeValue v) h)"
    by (simp add: Headers_set_def split: if_splits)
  have "headerValues h' m = headerValues h m"
  proof (cases "find (sameName n) h")
    case None
    with h' assms(2) show ?thesis by (simp add: headerValues_def sameName_def)
  next
    case (Some x)
    with h' assms(2) show ?thesis by (simp add: headerValues_setFirst_other)
  qed
  then show ?thesis by (simp add: Headers_get_def)
qed

lemma policy_names_differ:
  "lowercase ''Cache-Control'' \<noteq> lowercase ''Access-Control-Allow-Origin''"
  "lowercase ''Cache-Control'' \<noteq> lowercase ''Access-Control-Allow-Methods''"
  "lowercase ''Cache-Control'' \<noteq> lowercase ''Access-Control-Allow-Headers''"
  "lowercase ''Access-Control-Allow-Origin'' \<noteq> lowercase ''Access-Control-Allow-Methods''"
  "lowercase ''Access-Control-Allow-Origin'' \<noteq> lowercase ''Access-Control-Allow-Headers''"
  "lowercase ''Access-Control-Allow-Methods'' \<noteq> lowercase ''Access-Control-Allow-Headers''"
  by code_simp+

lemma policy_values:
  "normalizeValue ''no-store'' = ''no-store''"
  "normalizeValue ''*'' = ''*''"
  "normalizeValue ''GET, POST, PUT, DELETE'' = ''GET, POST, PUT, DELETE''"
  by code_simp+

lemma andThen_Inr: "andThen x f = Inr y \<Longrightarrow> \<exists>v. x = Inr v \<and> f v = Inr y"
  by (cases x) (simp_all add: andThen_def)

lemma policy_headers_set:
  assumes nc: "setNoCacheHeaders h0 = Inr h1" and cors: "setCorsHeaders h1 = Inr h4"
  shows "Headers_get h4 ''Cache-Control'' = Some ''no-store''
    \<and> Headers_get h4 ''Access-Control-Allow-Origin'' = Some ''*''
    \<and> Headers_get h4 ''Access-Control-Allow-Methods'' = Some ''GET, POST, PUT, DELETE''
    \<and> Headers_get h4 ''Access-Control-Allow-Headers'' = Some ''*''"
proof -
  from nc have s1: "Headers_set h0 ''Cache-Control'' ''no-store'' = Inr h1"
    by (simp add: setNoCacheHeaders_def)
  from cors obtain h2 where s2: "Headers_set h1 ''Access-Control-Allow-Origin'' ''*'' = Inr h2"
    and r2: "andThen (Headers_set h2 ''Access-Control-Allow-Methods'' ''GET, POST, PUT, DELETE'')
               (\<lambda>h. Headers_set h ''Access-Control-Allow-Headers'' ''*'') = Inr h4"
    unfolding setCorsHeaders_def by (blast dest: andThen_Inr)
  from r2 obtain h3 where
    s3: "Headers_set h2 ''Access-Control-Allow-Methods'' ''GET, POST, PUT, DELETE'' = Inr h3"
    and s4: "Headers_set h3 ''Access-Control-Allow-Headers'' ''*'' = Inr h4"
    by (blast dest: andThen_Inr)
  note d = policy_names_differ
  have "Headers_get h4 ''Cache-Control'' = Headers_get h1 ''Cache-Control''"
    using Headers_get_set_other [OF s4 d(3)] Headers_get_set_other [OF s3 d(2)]
      Headers_get_set_other [OF s2 d(1)] by simp
  then have 1: "Headers_get h4 ''Cache-Control'' = Some ''no-store''"
    using Headers_get_set_same [OF s1] by (simp add: policy_values)
  have "Headers_get h4 ''Access-Control-Allow-Origin'' = Headers_get h2 ''Access-Control-Allow-Origin''"
    using Headers_get_set_other [OF s4 d(5)] Headers_get_set_other [OF s3 d(4)] by simp
  then have 2: "Headers_get h4 ''Access-Control-Allow-Origin'' = Some ''*''"
    using Headers_get_set_same [OF s2] by (simp add: policy_values)
  have "Headers_get h4 ''Access-Control-Allow-Methods'' = Headers_get h3 ''Access-Control-Allow-Methods''"
    using Headers_get_set_other [OF s4 d(6)] by simp
  then have 3: "Headers_get h4 ''Access-Control-Allow-Methods'' = Some ''GET, POST, PUT, DELETE''"
    using Headers_get_set_same [OF s3] by (simp add: policy_values)
  have 4: "Headers_get h4 ''Access-Control-Allow-Headers'' = Some ''*''"
    using Headers_get_set_same [OF s4] by (simp add: policy_values)
  from 1 2 3 4 show ?thesis by blast
qed

lemma modifiedResponse_policy_headers:
  assumes "modifiedResponse response b = Inr r"
  shows "Headers_get (headers r) ''Cache-Control'' = Some ''no-store''
    \<and> Headers_get (headers r) ''Access-Control-Allow-Origin'' = Some ''*''
    \<and> Headers_get (headers r) ''Access-Control-Allow-Methods'' = Some ''GET, POST, PUT, DELETE''
    \<and> Headers_get (headers r) ''Access-Control-Allow-Headers'' = Some ''*''"
proof -
  from assms obtain r0 where
    rest: "andThen (setNoCacheHeaders (headers r0)) (\<lambda>h1.
             andThen (setCorsHeaders h1) (\<lambda>h2. Inr (r0\<lparr>headers := h2\<rparr>))) = Inr r"
    unfolding modifiedResponse_def by (blast dest: andThen_Inr)
  then obtain h1 where nc: "setNoCacheHeaders (headers r0) = Inr h1"
    and rest2: "andThen (setCorsHeaders h1) (\<lambda>h2. Inr (r0\<lparr>headers := h2\<rparr>)) = Inr r"
    by (blast dest: andThen_Inr)
  then obtain h4 where cors: "setCorsHeaders h1 = Inr h4" and r: "r = r0\<lparr>headers := h4\<rparr>"
    by (auto dest!: andThen_Inr)
  from policy_headers_set [OF nc cors] r show ?thesis by simp
qed

subsection \<open>The header filter\<close>

lemma code_inject: "code a = code b \<Longrightarrow> a = b"
  by (simp add: code_def)

lemma code_char_of: "n < 256 \<Longrightarrow> code (char_of n) = n"
  by (simp add: code_def)

lemma toLowerASCII_upper:
  "65 \<le> code c \<and> code c \<le> 90 \<Longrightarrow> toLowerASCII c = char_of (code c + 32)"
  unfolding toLowerASCII_def by (rule if_P)

lemma toLowerASCII_other: "\<not> (65 \<le> code c \<and> code c \<le> 90) \<Longrightarrow> toLowerASCII c = c"
  unfolding toLowerASCII_def by (rule if_not_P)

lemma toLowerASCII_idem: "toLowerASCII (toLowerASCII c) = toLowerASCII c"
proof (cases "65 \<le> code c \<and> code c \<le> 90")
  case True
  then have l: "toLowerASCII c = char_of (code c + 32)" by (rule toLowerASCII_upper)
  from True have "code (char_of (code c + 32)) = code c + 32" by (simp add: code_char_of)
  then have "\<not> (65 \<le> code (char_of (code c + 32)) \<and> code (char_of (code c + 32)) \<le> 90)"
    using True by simp
  then have "toLowerASCII (char_of (code c + 32)) = char_of (code c + 32)"
    by (rule toLowerASCII_other)
  with l show ?thesis by simp
next
  case False
  then have "toLowerASCII c = c" by (rule toLowerASCII_other)
  then show ?thesis by simp
qed

lemma lowercase_idem: "lowercase (lowercase s) = lowercase s"
  by (simp add: lowercase_def toLowerASCII_idem)

lemma upper_to_lower_tchar: "\<forall>n \<in> set [65..<91]. tchar (char_of (n + 32))"
  by code_simp

lemma tchar_toLowerASCII: "tchar c \<Longrightarrow> tchar (toLowerASCII c)"
proof (cases "65 \<le> code c \<and> code c \<le> 90")
  case True
  then have "code c \<in> {65..<91}" by simp
  then have "code c \<in> set [65..<91]" by (simp only: set_upt)
  with upper_to_lower_tchar have "tchar (char_of (code c + 32))" by blast
  moreover from True have "toLowerASCII c = char_of (code c + 32)" by (rule toLowerASCII_upper)
  ultimately show ?thesis by simp
next
  case False
  then have "toLowerASCII c = c" by (rule toLowerASCII_other)
  moreover assume "tchar c"
  ultimately show ?thesis by simp
qed

lemma validName_lowercase: "validName n \<Longrightarrow> validName (lowercase n)"
  by (auto simp: validName_def lowercase_def list_all_iff tchar_toLowerASCII)

lemma set_normalizeValue: "set (normalizeValue v) \<subseteq> set v"
proof -
  have "set (dropWhile httpWhitespace (rev (dropWhile httpWhitespace v)))
          \<subseteq> set (rev (dropWhile httpWhitespace v))"
    by (rule set_dropWhileD [THEN subsetI])
  also have "\<dots> \<subseteq> set v" by (auto dest: set_dropWhileD)
  finally show ?thesis by (simp add: normalizeValue_def)
qed

lemma validValue_normalizeValue: "validValue v \<Longrightarrow> validValue (normalizeValue v)"
  using set_normalizeValue [of v] by (auto simp: validValue_def list_all_iff)

lemma validValue_append: "validValue (a @ b) \<longleftrightarrow> validValue a \<and> validValue b"
  by (auto simp: validValue_def)

lemma validValue_join: "\<forall>v \<in> set vs. validValue v \<Longrightarrow> validValue (join '', '' vs)"
  by (induction "'', ''" vs rule: join.induct) (auto simp: validValue_append, simp_all add: validValue_def)

lemma find_sameName_lowerFixed:
  assumes "\<forall>y \<in> set h. lowerFixed y" and "lowercase n = n"
  shows "(case find (sameName n) h of None \<Rightarrow> n | Some x \<Rightarrow> fst x) = n"
proof (cases "find (sameName n) h")
  case None
  then show ?thesis by simp
next
  case (Some x)
  then have "x \<in> set h" and "sameName n x"
    by (auto simp: find_Some_iff)
  with assms have "fst x = n" by (auto simp: sameName_def lowerFixed_def)
  with Some show ?thesis by simp
qed

lemma Headers_fill_lowerFixed:
  assumes "\<forall>y \<in> set h. lowerFixed y"
    and "\<forall>x \<in> set xs. lowerFixed x \<and> validName (fst x) \<and> validValue (normalizeValue (snd x))"
  shows "Headers_fill h xs = Inr (h @ map (\<lambda>x. (fst x, normalizeValue (snd x))) xs)"
  using assms
proof (induction xs arbitrary: h)
  case Nil
  then show ?case by simp
next
  case (Cons x xs)
  from Cons.prems have lx: "lowercase (fst x) = fst x" and vn: "validName (fst x)"
    and vv: "validValue (normalizeValue (snd x))"
    by (auto simp: lowerFixed_def)
  from find_sameName_lowerFixed [OF Cons.prems(1) lx] vn vv
  have a: "Headers_append h (fst x) (snd x) = Inr (h @ [(fst x, normalizeValue (snd x))])"
    by (simp add: Headers_append_def)
  have "\<forall>y \<in> set (h @ [(fst x, normalizeValue (snd x))]). lowerFixed y"
    using Cons.prems(1) lx by (auto simp: lowerFixed_def)
  from Cons.IH [OF this] Cons.prems(2)
  have "Headers_fill (h @ [(fst x, normalizeValue (snd x))]) xs =
          Inr ((h @ [(fst x, normalizeValue (snd x))]) @ map (\<lambda>x. (fst x, normalizeValue (snd x))) xs)"
    by simp
  with a show ?case by (simp add: andThen_def)
qed

lemma Headers_entries_alt: "Headers_entries h = concat (map (entriesOf h) (sortedNames h))"
  by (simp add: Headers_entries_def sortedNames_def entriesOf_def [abs_def])

lemma set_sortedNames: "set (sortedNames h) = (\<lambda>x. lowercase (fst x)) ` set h"
  by (simp add: sortedNames_def)

lemma distinct_sortedNames: "distinct (sortedNames h)"
  by (simp add: sortedNames_def)

lemma fst_entriesOf: "x \<in> set (entriesOf h n) \<Longrightarrow> fst x = n"
  by (auto simp: entriesOf_def split: if_splits)

lemma headerValues_valid:
  "validHeaders h \<Longrightarrow> v \<in> set (headerValues h n) \<Longrightarrow> validValue v \<and> normalizeValue v = v"
  by (auto simp: validHeaders_def validHeader_def headerValues_def list_all_iff)

lemma snd_entriesOf_valid:
  assumes "validHeaders h" and "x \<in> set (entriesOf h n)"
  shows "validValue (snd x)"
proof (cases "n = ''set-cookie''")
  case True
  with assms show ?thesis by (auto simp: entriesOf_def dest: headerValues_valid)
next
  case False
  with assms(2) have "snd x = join '', '' (headerValues h n)" by (simp add: entriesOf_def)
  moreover have "validValue (join '', '' (headerValues h n))"
    using assms(1) by (intro validValue_join) (auto dest: headerValues_valid)
  ultimately show ?thesis by simp
qed

lemma Headers_entries_valid:
  assumes v: "validHeaders h" and x: "x \<in> set (Headers_entries h)"
  shows "lowerFixed x \<and> validName (fst x) \<and> validValue (normalizeValue (snd x))"
proof -
  from x obtain n where n: "n \<in> set (sortedNames h)" and xe: "x \<in> set (entriesOf h n)"
    by (auto simp: Headers_entries_alt)
  from n obtain y where y: "y \<in> set h" and ny: "n = lowercase (fst y)"
    by (auto simp: set_sortedNames)
  from xe have fx: "fst x = n" by (rule fst_entriesOf)
  from v y have "validName (fst y)" by (auto simp: validHeaders_def validHeader_def list_all_iff)
  then have "validName (fst x)" using fx ny by (simp add: validName_lowercase)
  moreover have "lowerFixed x" using fx ny by (simp add: lowerFixed_def lowercase_idem)
  moreover have "validValue (normalizeValue (snd x))"
    using snd_entriesOf_valid [OF v xe] by (rule validValue_normalizeValue)
  ultimately show ?thesis by blast
qed

lemma filterHeaders_valid:
  assumes "validHeaders hs"
  shows "filterHeaders hs f =
           Inr (map (\<lambda>x. (fst x, normalizeValue (snd x)))
                  (filter (\<lambda>x. f (fst x)) (Headers_entries hs)))"
proof -
  have "\<forall>x \<in> set (filter (\<lambda>x. f (fst x)) (Headers_entries hs)).
          lowerFixed x \<and> validName (fst x) \<and> validValue (normalizeValue (snd x))"
    using Headers_entries_valid [OF assms] by auto
  from Headers_fill_lowerFixed [OF _ this, of "[]"] show ?thesis
    by (simp add: filterHeaders_def)
qed

lemma filter_concat_distinct:
  assumes "distinct ns" and "\<forall>n \<in> set ns. \<forall>x \<in> set (F n). fst x = n"
  shows "filter (\<lambda>x. fst x = k) (concat (map F ns)) = (if k \<in> set ns then F k else [])"
  using assms
proof (induction ns)
  case Nil
  then show ?case by simp
next
  case (Cons n ns)
  from Cons have ih: "filter (\<lambda>x. fst x = k) (concat (map F ns)) = (if k \<in> set ns then F k else [])"
    by simp
  show ?case
  proof (cases "n = k")
    case True
    with Cons.prems have "k \<notin> set ns" by simp
    moreover from True Cons.prems(2) have "filter (\<lambda>x. fst x = k) (F n) = F k"
      by (auto intro: filter_True)
    ultimately show ?thesis using ih True by simp
  next
    case False
    with Cons.prems(2) have "filter (\<lambda>x. fst x = k) (F n) = []"
      by (auto simp: filter_empty_conv)
    with ih False show ?thesis by auto
  qed
qed

lemma headerValues_lowercase: "headerValues h (lowercase n) = headerValues h n"
  by (simp add: headerValues_def sameName_def [abs_def] lowercase_idem)

lemma headerValues_empty_iff:
  "headerValues h n = [] \<longleftrightarrow> lowercase n \<notin> set (sortedNames h)"
  by (auto simp: headerValues_def set_sortedNames filter_empty_conv sameName_def image_iff)

lemma entries_with_name:
  "filter (\<lambda>x. fst x = lowercase n) (Headers_entries h) =
     (if headerValues h n = [] then [] else entriesOf h (lowercase n))"
proof -
  have "\<forall>k \<in> set (sortedNames h). \<forall>x \<in> set (entriesOf h k). fst x = k"
    by (auto dest: fst_entriesOf)
  from filter_concat_distinct [OF distinct_sortedNames this, of "lowercase n"]
  show ?thesis
    unfolding Headers_entries_alt by (simp add: headerValues_empty_iff)
qed

lemma entries_lowerFixed:
  assumes "x \<in> set (Headers_entries h)"
  shows "lowercase (fst x) = fst x"
proof -
  from assms obtain n where n: "n \<in> set (sortedNames h)" and xe: "x \<in> set (entriesOf h n)"
    by (auto simp: Headers_entries_alt)
  from xe have "fst x = n" by (rule fst_entriesOf)
  with n show ?thesis by (auto simp: set_sortedNames lowercase_idem)
qed

lemma kept_entries_with_name:
  "filter (\<lambda>x. sameName n x \<and> \<not> startsWith (fst x) ''cf-'') (Headers_entries h) =
     (if startsWith (lowercase n) ''cf-'' \<or> headerValues h n = [] then []
      else entriesOf h (lowercase n))"
proof -
  have "filter (\<lambda>x. sameName n x \<and> \<not> startsWith (fst x) ''cf-'') (Headers_entries h) =
        filter (\<lambda>x. \<not> startsWith (lowercase n) ''cf-'' \<and> fst x = lowercase n) (Headers_entries h)"
    by (rule filter_cong) (auto simp: sameName_def dest: entries_lowerFixed)
  also have "\<dots> = (if startsWith (lowercase n) ''cf-'' then []
                    else filter (\<lambda>x. fst x = lowercase n) (Headers_entries h))"
    by simp
  finally show ?thesis by (simp add: entries_with_name)
qed

lemma map_normalize_entriesOf:
  assumes "validHeaders h"
  shows "map (\<lambda>x. normalizeValue (snd x)) (entriesOf h (lowercase n)) =
           (if lowercase n = ''set-cookie'' then headerValues h n
            else [normalizeValue (join '', '' (headerValues h n))])"
proof (cases "lowercase n = ''set-cookie''")
  case True
  have "map normalizeValue (headerValues h n) = headerValues h n"
    using headerValues_valid [OF assms] by (simp add: map_idI)
  moreover have "headerValues h ''set-cookie'' = headerValues h n"
    using headerValues_lowercase [of h n] True by simp
  ultimately show ?thesis using True
    by (simp add: entriesOf_def comp_def)
next
  case False
  then show ?thesis by (simp add: entriesOf_def headerValues_lowercase)
qed

text \<open>
  Claim C4, as amended. On a well-formed header set the filter never fails, and it is a
  function of its input, which it leaves as it is. Its result is read off the
  iteration of the input, not off the original list: the lower-cased names in ascending
  order, each once with its values joined by a comma and a space and trimmed
  (\<open>set-cookie\<close> with one entry per value), without the entries whose name starts with
  \<open>cf-\<close>. So nothing remains under a name that starts with \<open>cf-\<close> in any spelling,
  and the values under every other name remain, combined into one; the original order
  and multiplicity of the headers are not kept.
\<close>

theorem filterHeaders_sorted_combined:
  assumes v: "validHeaders hs"
  shows "filterHeaders hs (\<lambda>name. \<not> startsWith name ''cf-'') =
           Inr (map (\<lambda>x. (fst x, normalizeValue (snd x)))
                  (filter (\<lambda>x. \<not> startsWith (fst x) ''cf-'') (Headers_entries hs)))
    \<and> (\<forall>out n. filterHeaders hs (\<lambda>name. \<not> startsWith name ''cf-'') = Inr out \<longrightarrow>
          headerValues out n =
            (if startsWith (lowercase n) ''cf-'' \<or> headerValues hs n = [] then []
             else if lowercase n = ''set-cookie'' then headerValues hs n
             else [normalizeValue (join '', '' (headerValues hs n))]))"
proof -
  let ?out = "map (\<lambda>x. (fst x, normalizeValue (snd x)))
                  (filter (\<lambda>x. \<not> startsWith (fst x) ''cf-'') (Headers_entries hs))"
  have 1: "filterHeaders hs (\<lambda>name. \<not> startsWith name ''cf-'') = Inr ?out"
    by (rule filterHeaders_valid [OF v])
  have 2: "headerValues ?out n =
            (if startsWith (lowercase n) ''cf-'' \<or> headerValues hs n = [] then []
             else if lowercase n = ''set-cookie'' then headerValues hs n
             else [normalizeValue (join '', '' (headerValues hs n))])" for n
  proof -
    have "headerValues ?out n =
            map (\<lambda>x. normalizeValue (snd x))
              (filter (\<lambda>x. sameName n x \<and> \<not> startsWith (fst x) ''cf-'') (Headers_entries hs))"
      by (simp add: headerValues_def filter_map comp_def sameName_def conj_commute)
    also have "\<dots> = (if startsWith (lowercase n) ''cf-'' \<or> headerValues hs n = [] then []
             else map (\<lambda>x. normalizeValue (snd x)) (entriesOf hs (lowercase n)))"
      by (simp add: kept_entries_with_name)
    finally show ?thesis by (simp add: map_normalize_entriesOf [OF v])
  qed
  from 1 2 show ?thesis by simp
qed

subsection \<open>The rewrite of relative paths\<close>

























subsection \<open>The handler on concrete requests\<close>

lemma demo_platform_simps:
  "URL_new (demo_platform up) = demo_URL"
  "Request_new (demo_platform up) = demo_Request"
  "global_fetch (demo_platform up) = up"
  by (simp_all add: demo_platform_def)

lemma demo_forwards:
  "forwards (demo_platform (\<lambda>r. Inr response)) relay_request relay_url
     ''https://example.com/a'' relay_sent response"
proof -
  have 1: "demo_URL (req_url relay_request) = Inr relay_url" by code_simp
  have 2: "pathname relay_url \<noteq> ''/''" by code_simp
  have 3: "actualUrlStr relay_url = Inr ''https://example.com/a''" by code_simp
  have 4: "filterHeaders (req_headers relay_request) (\<lambda>name. \<not> startsWith name ''cf-'')
             = Inr [(''accept'', ''*/*''), (''host'', ''relay.example'')]"
    by code_simp
  have 5: "demo_Request ''https://example.com/a''
             \<lparr>init_headers = [(''accept'', ''*/*''), (''host'', ''relay.example'')],
              init_method = req_method relay_request, init_body = req_body relay_request,
              init_redirect = ''manual''\<rparr> = Inr relay_sent"
    by code_simp
  show ?thesis
    unfolding forwards_def demo_platform_simps
    using 1 2 3 4 5 by simp
qed

text \<open>
  The amended claim C1 at the redirect to \<open>https://example.com/next\<close>.
\<close>

theorem redirect_location_rewrite_witness:
  "snd (fetch (demo_platform (\<lambda>r. Inr redirect_absolute)) relay_request) =
     Inr \<lparr>status = 302, statusText = ''Found'',
          headers = [(''Location'', ''/https%3A%2F%2Fexample.com%2Fnext'')],
          body = Some ''moved''\<rparr>
   \<and> decodeURIComponent ''https%3A%2F%2Fexample.com%2Fnext'' = Inr ''https://example.com/next''
   \<and> actualUrlStr \<lparr>href = ''https://relay.example/https%3A%2F%2Fexample.com%2Fnext'',
                    protocol = ''https:'', host = ''relay.example'',
                    pathname = ''/https%3A%2F%2Fexample.com%2Fnext'', search = [],
                    origin = ''https://relay.example''\<rparr> = Inr ''https://example.com/next''"
proof -
  let ?P = "demo_platform (\<lambda>r. Inr redirect_absolute)"
  let ?u = "\<lparr>href = ''https://relay.example/https%3A%2F%2Fexample.com%2Fnext'',
                    protocol = ''https:'', host = ''relay.example'',
                    pathname = ''/https%3A%2F%2Fexample.com%2Fnext'', search = [],
                    origin = ''https://relay.example''\<rparr>"
  have st: "status redirect_absolute \<in> set [301, 302, 303, 307, 308]"
    by (simp add: redirect_absolute_def)
  have loc: "Headers_get (headers redirect_absolute) ''location'' = Some ''https://example.com/next''"
    by code_simp
  have abs: "URL_new ?P ''https://example.com/next'' = Inr next_url"
    by code_simp
  have asc: "ascii (href next_url)" by code_simp
  have enc: "encodeURIComponent (href next_url) = ''https%3A%2F%2Fexample.com%2Fnext''"
    by code_simp
  have sw: "startsWith (href next_url) ''https://''" by code_simp
  have h: "href next_url = ''https://example.com/next''" by (simp add: next_url_def)
  note t = redirect_location_rewrite [OF demo_forwards st loc abs asc, unfolded enc]
  from t have 1: "snd (fetch ?P relay_request) =
     Inr \<lparr>status = 302, statusText = ''Found'',
          headers = [(''Location'', ''/https%3A%2F%2Fexample.com%2Fnext'')],
          body = Some ''moved''\<rparr>"
    by (simp add: redirect_absolute_def)
  from t h have 2: "decodeURIComponent ''https%3A%2F%2Fexample.com%2Fnext'' = Inr ''https://example.com/next''"
    by simp
  from t have "(startsWith (href next_url) ''http://'' \<or> startsWith (href next_url) ''https://'')
            \<and> pathname ?u = ''/'' @ ''https%3A%2F%2Fexample.com%2Fnext'' \<and> search ?u = []
          \<longrightarrow> actualUrlStr ?u = Inr (href next_url)"
    by blast
  with sw h have 3: "actualUrlStr ?u = Inr ''https://example.com/next''" by simp
  from 1 2 3 show ?thesis by blast
qed

text \<open>
  Claim C1 as stated fails: an upstream 302 with \<open>Location: /next\<close> is not answered
  with a rewritten location for \<open>https://example.com/next\<close>; the constructor \<open>URL\<close>
  throws, and the caller receives the error envelope, which has no \<open>Location\<close>.
\<close>

theorem relative_location_counterexample:
  "status redirect_relative = 302
   \<and> Headers_get (headers redirect_relative) ''Location'' = Some ''/next''
   \<and> snd (fetch (demo_platform (\<lambda>r. Inr redirect_relative)) relay_request)
       = Inr (errorEnvelope ''Invalid URL'')
   \<and> Headers_get (headers (errorEnvelope ''Invalid URL'')) ''Location'' = None"
  by code_simp

text \<open>
  Claim C2. The relay's answer to an upstream redirect is to keep every upstream
  header but \<open>Location\<close>. The handler does not: the spread of the upstream \<open>Headers\<close>
  object contributes nothing, so the answer carries the \<open>Location\<close> header alone. Here
  the upstream sends two \<open>Set-Cookie\<close> headers and a \<open>Content-Type\<close>, and none of them is
  in the answer.
\<close>

theorem redirect_drops_upstream_headers:
  "Headers_get (headers redirect_absolute) ''Set-Cookie'' = Some ''a=1, b=2''
   \<and> Headers_get (headers redirect_absolute) ''Content-Type'' = Some ''text/html''
   \<and> (case snd (fetch (demo_platform (\<lambda>r. Inr redirect_absolute)) relay_request) of
         Inl e \<Rightarrow> False
       | Inr r \<Rightarrow>
           headers r = [(''Location'', ''/https%3A%2F%2Fexample.com%2Fnext'')]
           \<and> Headers_get (headers r) ''Set-Cookie'' = None
           \<and> Headers_get (headers r) ''Content-Type'' = None)"
  by code_simp

text \<open>
  Claim C7. Every successful answer is to carry \<open>Cache-Control: no-store\<close> and the
  three CORS headers. The redirect branch returns before they are set: the answer to
  an upstream 302 has none of the four.
\<close>

theorem redirect_without_policy_headers:
  "(case snd (fetch (demo_platform (\<lambda>r. Inr redirect_absolute)) relay_request) of
      Inl e \<Rightarrow> False
    | Inr r \<Rightarrow>
        status r = 302
        \<and> Headers_get (headers r) ''Cache-Control'' = None
        \<and> Headers_get (headers r) ''Access-Control-Allow-Origin'' = None
        \<and> Headers_get (headers r) ''Access-Control-Allow-Methods'' = None
        \<and> Headers_get (headers r) ''Access-Control-Allow-Headers'' = None)"
  by code_simp

text \<open>
  Claim C8 at an upstream that cannot be reached.
\<close>

theorem errors_become_envelope_witness:
  "snd (fetch (demo_platform upstream_unreachable) relay_request)
     = Inr (errorEnvelope ''Network connection lost.'')"
proof -
  have "snd (fetch_try (demo_platform upstream_unreachable) relay_request)
          = Inl (TypeError ''Network connection lost.'')"
    by code_simp
  from errors_become_envelope [OF this] show ?thesis by simp
qed

text \<open>
  Claim C5 as stated fails: \<open>TEXT/HTML\<close> contains \<open>text/html\<close> when case is ignored,
  yet the body of such a response is passed on unchanged, where the HTML branch would
  have rewritten it.
\<close>

theorem html_detection_counterexample:
  "String_includes (lowercase ''TEXT/HTML'') ''text/html''
   \<and> Headers_get (headers html_page_uppercase) ''Content-Type'' = Some ''TEXT/HTML''
   \<and> status html_page_uppercase = 200
   \<and> (case snd (fetch (demo_platform (\<lambda>r. Inr html_page_uppercase)) relay_request) of
         Inl e \<Rightarrow> False
       | Inr r \<Rightarrow> body r = body html_page_uppercase)
   \<and> Some (replaceRelativePaths logoTag ''https:'' ''relay.example'' ''https://example.com'')
       \<noteq> body html_page_uppercase"
  by code_simp

text \<open>
  The amended claim C5 at an HTML page.
\<close>

theorem response_classification_witness:
  "snd (fetch_try (demo_platform (\<lambda>r. Inr html_page)) relay_request) =
     andThen (handleHtmlContent (demo_platform (\<lambda>r. Inr html_page)) html_page
                ''https:'' ''relay.example'' ''https://example.com/a'')
       (\<lambda>modifiedText. modifiedResponse html_page (BodyText modifiedText))
   \<and> handleHtmlContent (demo_platform (\<lambda>r. Inr html_page)) html_page
                ''https:'' ''relay.example'' ''https://example.com/a''
       = Inr (''<img src='' @ [CHR 0x22] @ ''https://relay.example/https://example.com/logo.png''
              @ [CHR 0x22] @ ''>'')"
proof -
  have st: "status html_page \<notin> set [301, 302, 303, 307, 308]"
    by (simp add: html_page_def)
  have ct: "Headers_get (headers html_page) ''Content-Type'' = Some ''text/html; charset=utf-8''"
    by code_simp
  have inc: "String_includes ''text/html; charset=utf-8'' ''text/html''"
    by code_simp
  have h: "handleHtmlContent (demo_platform (\<lambda>r. Inr html_page)) html_page
                ''https:'' ''relay.example'' ''https://example.com/a''
       = Inr (''<img src='' @ [CHR 0x22] @ ''https://relay.example/https://example.com/logo.png''
              @ [CHR 0x22] @ ''>'')"
    by code_simp
  from response_classification [OF demo_forwards [of html_page]] st ct inc
  have "snd (fetch_try (demo_platform (\<lambda>r. Inr html_page)) relay_request) =
     andThen (handleHtmlContent (demo_platform (\<lambda>r. Inr html_page)) html_page
                (protocol relay_url) (host relay_url) ''https://example.com/a'')
       (\<lambda>modifiedText. modifiedResponse html_page (BodyText modifiedText))"
    by blast
  with h show ?thesis by (simp add: relay_url_def)
qed

text \<open>The amended claim C4 at headers with a repeated name.\<close>

theorem filterHeaders_sorted_combined_witness:
  "validHeaders repeated_headers
   \<and> filterHeaders repeated_headers (\<lambda>name. \<not> startsWith name ''cf-'') = Inr [(''x-a'', ''2''), (''x-b'', ''1, 3'')]
   \<and> headerValues [(''x-a'', ''2''), (''x-b'', ''1, 3'')] ''X-B'' = [''1, 3'']
   \<and> headerValues [(''x-a'', ''2''), (''x-b'', ''1, 3'')] ''CF-Ray'' = []"
proof -
  have v: "validHeaders repeated_headers" by code_simp
  have e: "map (\<lambda>x. (fst x, normalizeValue (snd x)))
                  (filter (\<lambda>x. \<not> startsWith (fst x) ''cf-'') (Headers_entries repeated_headers))
           = [(''x-a'', ''2''), (''x-b'', ''1, 3'')]"
    by code_simp
  have l: "lowercase ''X-B'' = ''x-b''" "lowercase ''CF-Ray'' = ''cf-ray''" by code_simp+
  have s: "\<not> startsWith ''x-b'' ''cf-''" "startsWith ''cf-ray'' ''cf-''" by code_simp+
  have h: "headerValues repeated_headers ''X-B'' = [''1'', ''3'']" by code_simp
  have n: "normalizeValue ''1, 3'' = ''1, 3''" by code_simp
  note t = filterHeaders_sorted_combined [OF v, unfolded e]
  from t have 1: "filterHeaders repeated_headers (\<lambda>name. \<not> startsWith name ''cf-'') = Inr [(''x-a'', ''2''), (''x-b'', ''1, 3'')]"
    by blast
  from t 1 have 2: "headerValues [(''x-a'', ''2''), (''x-b'', ''1, 3'')] ''X-B'' =
            (if startsWith (lowercase ''X-B'') ''cf-'' \<or> headerValues repeated_headers ''X-B'' = [] then []
             else if lowercase ''X-B'' = ''set-cookie'' then headerValues repeated_headers ''X-B''
             else [normalizeValue (join '', '' (headerValues repeated_headers ''X-B''))])"
    by blast
  from t 1 have 3: "headerValues [(''x-a'', ''2''), (''x-b'', ''1, 3'')] ''CF-Ray'' =
            (if startsWith (lowercase ''CF-Ray'') ''cf-'' \<or> headerValues repeated_headers ''CF-Ray'' = [] then []
             else if lowercase ''CF-Ray'' = ''set-cookie'' then headerValues repeated_headers ''CF-Ray''
             else [normalizeValue (join '', '' (headerValues repeated_headers ''CF-Ray''))])"
    by blast
  from 2 l s h n have a2: "headerValues [(''x-a'', ''2''), (''x-b'', ''1, 3'')] ''X-B'' = [''1, 3'']"
    by simp
  from 3 l s have a3: "headerValues [(''x-a'', ''2''), (''x-b'', ''1, 3'')] ''CF-Ray'' = []"
    by simp
  from v 1 a2 a3 show ?thesis by blast
qed

text \<open>
  Claim C4 as stated fails: passing the other headers through in their original order
  and multiplicity would give \<open>x-b\<close>, \<open>x-a\<close>, \<open>x-b\<close>; the filter gives \<open>x-a\<close> and one
  \<open>x-b\<close> with the combined value.
\<close>

theorem filterHeaders_order_multiplicity_counterexample:
  "filter (\<lambda>x. \<not> startsWith (lowercase (fst x)) ''cf-'') repeated_headers
     = [(''x-b'', ''1''), (''x-a'', ''2''), (''x-b'', ''3'')]
   \<and> filterHeaders repeated_headers (\<lambda>name. \<not> startsWith name ''cf-'')
       = Inr [(''x-a'', ''2''), (''x-b'', ''1, 3'')]"
  by code_simp


lemma protocol_relative_unchanged:
  "replaceRelativePaths cdnTag ''https:'' ''relay.example'' ''https://example.com'' = cdnTag"
  by code_simp

text \<open>
  What the template does with a dollar sign: in the origin \<open>https://a$1b.example\<close> the
  characters \<open>$1\<close> are replaced by the first group of the match.
\<close>

lemma dollar_in_origin:
  "replaceRelativePaths (''href='' @ [CHR 0x22] @ ''/x'') ''https:'' ''relay.example'' ''https://a$1b.example''
     = ''href='' @ [CHR 0x22] @ ''https://relay.example/https://ahref='' @ [CHR 0x22] @ ''b.example/x''"
  by code_simp

end
